theory Spec2Isabelle
  imports Complex_Main
begin

section \<open>Data model\<close>

text \<open>
  The ledger lives in the database: the tables \<^verbatim>\<open>partners\<close>, \<^verbatim>\<open>daily_sales\<close>,
  \<^verbatim>\<open>partner_transactions\<close> (business), \<^verbatim>\<open>personal_transactions\<close> and
  \<^verbatim>\<open>personal_balances\<close>, their constraints and their row triggers. A \<^verbatim>\<open>uuid\<close> is
  modelled by a natural number (its 128 bits read as an unsigned number, which is the
  order the comparison operators of the column type use), a \<^verbatim>\<open>numeric\<close> by a rational
  (addition and subtraction of \<^verbatim>\<open>numeric\<close> are exact), a \<^verbatim>\<open>timestamptz\<close> and a
  \<^verbatim>\<open>date\<close> by a natural number. Only the columns that the constraints, the triggers and
  the handlers read are kept. The column \<^verbatim>\<open>status\<close> holds one of the three values its
  CHECK admits, and the numeric columns are never NULL.
\<close>

type_synonym uuid = nat
type_synonym timestamptz = nat
type_synonym date = nat
type_synonym numeric = rat

datatype status = Pending | Approved | Rejected

text \<open>A row of \<^verbatim>\<open>partner_transactions\<close> or of \<^verbatim>\<open>personal_transactions\<close>.\<close>

record transaction =
  tx_id :: uuid
  from_partner_id :: uuid
  to_partner_id :: uuid
  amount :: numeric
  status :: status
  approved_by :: "uuid option"
  approved_at :: "timestamptz option"
  rejection_reason :: "string option"

text \<open>A row of \<^verbatim>\<open>daily_sales\<close>.\<close>

record sale =
  sale_id :: uuid
  date :: date
  total_amount :: numeric
  online_amount :: numeric
  cash_amount :: numeric
  sale_notes :: "string option"
  partner_id :: "uuid option"
  created_by :: uuid

text \<open>
  The database. \<open>partners\<close> maps the id of each row of \<^verbatim>\<open>partners\<close> to its
  \<^verbatim>\<open>current_balance\<close>; \<open>personal_balances\<close> maps the pair
  \<^verbatim>\<open>(partner_a_id, partner_b_id)\<close>, which is unique in its table, to
  \<^verbatim>\<open>balance_amount\<close>.
\<close>

record db =
  partners :: "uuid \<rightharpoonup> numeric"
  daily_sales :: "sale list"
  partner_transactions :: "transaction list"
  personal_transactions :: "transaction list"
  personal_balances :: "(uuid \<times> uuid) \<rightharpoonup> numeric"

text \<open>The operation a row trigger is fired for, with \<^verbatim>\<open>OLD\<close> and \<^verbatim>\<open>NEW\<close>.\<close>

datatype 'r tg_op = INSERT 'r | UPDATE 'r 'r | DELETE 'r

datatype db_error =
  UniqueViolation | ForeignKeyViolation | CheckViolation | RlsViolation

text \<open>
  Who sends a statement: \<open>Some u\<close> is the signed-in partner \<open>u\<close> (the value of
  \<^verbatim>\<open>auth.uid()\<close>), \<open>None\<close> a role that bypasses row-level security (the owner
  that runs the migrations, the service role). No trigger function is declared
  \<^verbatim>\<open>SECURITY DEFINER\<close>, so what a trigger writes is subject to the policies of the
  sender of the statement that fired it.
\<close>

type_synonym caller = "uuid option"

section \<open>Balance triggers\<close>

text \<open>
  The only UPDATE policy of \<^verbatim>\<open>partners\<close>, \<^verbatim>\<open>USING (auth.uid() = id)\<close>: the rows of
  \<^verbatim>\<open>partners\<close> that an UPDATE sent by \<open>c\<close> can reach.
\<close>

definition partners_update_policy :: "caller \<Rightarrow> uuid \<Rightarrow> bool" where
  "partners_update_policy c p = (case c of None \<Rightarrow> True | Some u \<Rightarrow> u = p)"

text \<open>
  \<^verbatim>\<open>UPDATE partners SET current_balance = current_balance + d WHERE id = p\<close> inside a
  trigger fired by a statement of \<open>c\<close>: no row is touched when no partner has that id or
  when the policy hides the row from \<open>c\<close>, and no error is raised then.
\<close>

definition add_balance ::
  "caller \<Rightarrow> uuid \<Rightarrow> numeric \<Rightarrow> (uuid \<rightharpoonup> numeric) \<Rightarrow> (uuid \<rightharpoonup> numeric)" where
  "add_balance c p d ps =
     (if partners_update_policy c p
      then (case ps p of None \<Rightarrow> ps | Some b \<Rightarrow> ps(p \<mapsto> b + d))
      else ps)"

text \<open>\<^verbatim>\<open>update_partner_balance_from_sales\<close>, the AFTER trigger of \<^verbatim>\<open>daily_sales\<close>.\<close>

fun update_partner_balance_from_sales ::
  "caller \<Rightarrow> sale tg_op \<Rightarrow> (uuid \<rightharpoonup> numeric) \<Rightarrow> (uuid \<rightharpoonup> numeric)" where
  "update_partner_balance_from_sales c (INSERT new) ps =
     (case partner_id new of
        None \<Rightarrow> ps
      | Some p \<Rightarrow> add_balance c p (total_amount new) ps)"
| "update_partner_balance_from_sales c (UPDATE old new) ps =
     (if partner_id old \<noteq> partner_id new \<or> total_amount old \<noteq> total_amount new then
        (let ps1 = (case partner_id old of
                      None \<Rightarrow> ps
                    | Some p \<Rightarrow> add_balance c p (- total_amount old) ps)
         in (case partner_id new of
               None \<Rightarrow> ps1
             | Some p \<Rightarrow> add_balance c p (total_amount new) ps1))
      else ps)"
| "update_partner_balance_from_sales c (DELETE old) ps =
     (case partner_id old of
        None \<Rightarrow> ps
      | Some p \<Rightarrow> add_balance c p (- total_amount old) ps)"

text \<open>
  \<^verbatim>\<open>update_business_partner_balances\<close>, the AFTER trigger of
  \<^verbatim>\<open>partner_transactions\<close>. The three tests of the UPDATE branch run one after the
  other, each on the same \<^verbatim>\<open>OLD\<close> and \<^verbatim>\<open>NEW\<close>.
\<close>

fun update_business_partner_balances ::
  "caller \<Rightarrow> transaction tg_op \<Rightarrow> (uuid \<rightharpoonup> numeric) \<Rightarrow> (uuid \<rightharpoonup> numeric)" where
  "update_business_partner_balances c (INSERT new) ps =
     (if status new = Approved then
        add_balance c (to_partner_id new) (amount new)
          (add_balance c (from_partner_id new) (- amount new) ps)
      else ps)"
| "update_business_partner_balances c (DELETE old) ps =
     (if status old = Approved then
        add_balance c (to_partner_id old) (- amount old)
          (add_balance c (from_partner_id old) (amount old) ps)
      else ps)"
| "update_business_partner_balances c (UPDATE old new) ps =
     (let ps1 = (if status old = Approved \<and> status new \<noteq> Approved then
                   add_balance c (to_partner_id old) (- amount old)
                     (add_balance c (from_partner_id old) (amount old) ps)
                 else ps);
          ps2 = (if status old \<noteq> Approved \<and> status new = Approved then
                   add_balance c (to_partner_id new) (amount new)
                     (add_balance c (from_partner_id new) (- amount new) ps1)
                 else ps1)
      in (if status old = Approved \<and> status new = Approved \<and> amount old \<noteq> amount new then
            add_balance c (to_partner_id new) (- amount old + amount new)
              (add_balance c (from_partner_id new) (amount old - amount new) ps2)
          else ps2))"

text \<open>
  The pair a personal transaction lands on,
  \<^verbatim>\<open>(LEAST(from, to), GREATEST(from, to))\<close>, and its signed amount,
  \<^verbatim>\<open>CASE WHEN from_partner_id < to_partner_id THEN -amount ELSE amount END\<close>.
\<close>

definition pair_key :: "transaction \<Rightarrow> uuid \<times> uuid" where
  "pair_key r =
     (min (from_partner_id r) (to_partner_id r), max (from_partner_id r) (to_partner_id r))"

definition signed_amount :: "transaction \<Rightarrow> numeric" where
  "signed_amount r =
     (if from_partner_id r < to_partner_id r then - amount r else amount r)"

text \<open>\<^verbatim>\<open>INSERT INTO personal_balances ... ON CONFLICT (partner_a_id, partner_b_id) DO UPDATE\<close>.\<close>

definition upsert_balance ::
  "uuid \<times> uuid \<Rightarrow> numeric \<Rightarrow> ((uuid \<times> uuid) \<rightharpoonup> numeric) \<Rightarrow> ((uuid \<times> uuid) \<rightharpoonup> numeric)" where
  "upsert_balance k d pb = (case pb k of None \<Rightarrow> pb(k \<mapsto> d) | Some b \<Rightarrow> pb(k \<mapsto> b + d))"

text \<open>
  \<^verbatim>\<open>UPDATE personal_balances SET balance_amount = balance_amount + d WHERE\<close> the pair is
  \<open>k\<close>: nothing happens when the pair has no row.
\<close>

definition shift_balance ::
  "uuid \<times> uuid \<Rightarrow> numeric \<Rightarrow> ((uuid \<times> uuid) \<rightharpoonup> numeric) \<Rightarrow> ((uuid \<times> uuid) \<rightharpoonup> numeric)" where
  "shift_balance k d pb = (case pb k of None \<Rightarrow> pb | Some b \<Rightarrow> pb(k \<mapsto> b + d))"

text \<open>
  \<^verbatim>\<open>update_personal_balances\<close>, the AFTER trigger of \<^verbatim>\<open>personal_transactions\<close>. The
  policies of \<^verbatim>\<open>personal_balances\<close> admit either partner of the pair, and a statement
  on a personal transaction comes from one of its two parties, so the trigger's writes
  reach the pair's row.
\<close>

fun update_personal_balances ::
  "transaction tg_op \<Rightarrow> ((uuid \<times> uuid) \<rightharpoonup> numeric) \<Rightarrow> ((uuid \<times> uuid) \<rightharpoonup> numeric)" where
  "update_personal_balances (INSERT new) pb =
     (if status new = Approved then upsert_balance (pair_key new) (signed_amount new) pb
      else pb)"
| "update_personal_balances (DELETE old) pb =
     (if status old = Approved then shift_balance (pair_key old) (- signed_amount old) pb
      else pb)"
| "update_personal_balances (UPDATE old new) pb =
     (let pb1 = (if status old = Approved \<and> status new \<noteq> Approved then
                   shift_balance (pair_key old) (- signed_amount old) pb
                 else pb);
          pb2 = (if status old \<noteq> Approved \<and> status new = Approved then
                   upsert_balance (pair_key new) (signed_amount new) pb1
                 else pb1)
      in (if status old = Approved \<and> status new = Approved \<and> amount old \<noteq> amount new then
            shift_balance (pair_key old) (- signed_amount old + signed_amount new) pb2
          else pb2))"

section \<open>Approval metadata\<close>

text \<open>
  \<^verbatim>\<open>handle_transaction_approval\<close> and \<^verbatim>\<open>handle_business_transaction_approval\<close>, the
  BEFORE UPDATE triggers of the two transaction tables; their bodies are the same.
  \<open>now\<close> is the value of \<^verbatim>\<open>now()\<close>.
\<close>

definition handle_transaction_approval ::
  "timestamptz \<Rightarrow> transaction \<Rightarrow> transaction \<Rightarrow> transaction" where
  "handle_transaction_approval now old new =
     (let new1 = (if status new = Approved \<and> status old \<noteq> Approved
                  then new\<lparr>approved_at := Some now\<rparr> else new)
      in (if status new1 = Pending
          then new1\<lparr>approved_by := None, approved_at := None, rejection_reason := None\<rparr>
          else new1))"

text \<open>
  The CHECK constraints \<^verbatim>\<open>valid_business_approval_status\<close> and
  \<^verbatim>\<open>valid_approval_status\<close> (the same expression on the two tables).
\<close>

definition valid_approval_status :: "transaction \<Rightarrow> bool" where
  "valid_approval_status r =
     ((status r = Pending \<and> approved_by r = None \<and> approved_at r = None) \<or>
      (status r = Approved \<and> approved_by r \<noteq> None \<and> approved_at r \<noteq> None) \<or>
      (status r = Rejected \<and> approved_by r \<noteq> None))"

section \<open>Statements on the transaction tables\<close>

text \<open>
  The constraints a row of \<^verbatim>\<open>partner_transactions\<close> has to satisfy when it is written:
  \<^verbatim>\<open>different_partners\<close>, \<^verbatim>\<open>valid_business_approval_status\<close> and the foreign keys of
  \<^verbatim>\<open>from_partner_id\<close>, \<^verbatim>\<open>to_partner_id\<close> and \<^verbatim>\<open>approved_by\<close> into
  \<^verbatim>\<open>partners\<close>. The result is the violation raised, if any.
\<close>

definition transaction_checks :: "(uuid \<rightharpoonup> numeric) \<Rightarrow> transaction \<Rightarrow> db_error option" where
  "transaction_checks ps r =
     (if from_partner_id r = to_partner_id r then Some CheckViolation
      else if \<not> valid_approval_status r then Some CheckViolation
      else if ps (from_partner_id r) = None \<or> ps (to_partner_id r) = None
              \<or> (case approved_by r of None \<Rightarrow> False | Some a \<Rightarrow> ps a = None)
      then Some ForeignKeyViolation
      else None)"

text \<open>\<^verbatim>\<open>personal_transactions\<close> has the same constraints and \<^verbatim>\<open>CHECK (amount > 0)\<close>.\<close>

definition personal_checks :: "(uuid \<rightharpoonup> numeric) \<Rightarrow> transaction \<Rightarrow> db_error option" where
  "personal_checks ps r =
     (if \<not> 0 < amount r then Some CheckViolation else transaction_checks ps r)"

text \<open>The row with a given primary key.\<close>

definition find_transaction :: "uuid \<Rightarrow> transaction list \<Rightarrow> transaction option" where
  "find_transaction tid rows = find (\<lambda>r. tx_id r = tid) rows"

definition replace_transaction :: "uuid \<Rightarrow> transaction \<Rightarrow> transaction list \<Rightarrow> transaction list" where
  "replace_transaction tid new rows = map (\<lambda>r. if tx_id r = tid then new else r) rows"

definition remove_transaction :: "uuid \<Rightarrow> transaction list \<Rightarrow> transaction list" where
  "remove_transaction tid rows = filter (\<lambda>r. tx_id r \<noteq> tid) rows"

text \<open>
  The row an \<^verbatim>\<open>UPDATE ... SET ... WHERE id = tid\<close> writes: the SET clause \<open>f\<close> applied
  to the old row (the primary key is never assigned), then the BEFORE UPDATE trigger.
\<close>

definition new_row :: "timestamptz \<Rightarrow> transaction \<Rightarrow> (transaction \<Rightarrow> transaction) \<Rightarrow> transaction" where
  "new_row now old f = handle_transaction_approval now old ((f old)\<lparr>tx_id := tx_id old\<rparr>)"

text \<open>
  \<^verbatim>\<open>INSERT INTO partner_transactions\<close>, sent by \<open>c\<close>. A statement that raises leaves
  the database as it was; the AFTER trigger runs in the statement's transaction. The
  policies of the statement's own table decide which statements a partner may send; \<open>c\<close>
  decides here which rows of \<^verbatim>\<open>partners\<close> the trigger reaches.
\<close>

definition insert_partner_transaction ::
  "caller \<Rightarrow> db \<Rightarrow> transaction \<Rightarrow> db_error + db" where
  "insert_partner_transaction c d new =
     (case transaction_checks (partners d) new of
        Some e \<Rightarrow> Inl e
      | None \<Rightarrow>
          if find_transaction (tx_id new) (partner_transactions d) \<noteq> None
          then Inl UniqueViolation
          else Inr (d\<lparr>partner_transactions := partner_transactions d @ [new],
                      partners := update_business_partner_balances c (INSERT new) (partners d)\<rparr>))"

text \<open>\<^verbatim>\<open>UPDATE partner_transactions SET ... WHERE id = tid\<close>; no row, no effect.\<close>

definition update_partner_transaction ::
  "caller \<Rightarrow> timestamptz \<Rightarrow> db \<Rightarrow> uuid \<Rightarrow> (transaction \<Rightarrow> transaction) \<Rightarrow>
   db_error + db" where
  "update_partner_transaction c now d tid f =
     (case find_transaction tid (partner_transactions d) of
        None \<Rightarrow> Inr d
      | Some old \<Rightarrow>
          (let new = new_row now old f
           in (case transaction_checks (partners d) new of
                 Some e \<Rightarrow> Inl e
               | None \<Rightarrow>
                   Inr (d\<lparr>partner_transactions :=
                             replace_transaction tid new (partner_transactions d),
                           partners :=
                             update_business_partner_balances c (UPDATE old new) (partners d)\<rparr>))))"

text \<open>\<^verbatim>\<open>DELETE FROM partner_transactions WHERE id = tid\<close>.\<close>

definition delete_partner_transaction :: "caller \<Rightarrow> db \<Rightarrow> uuid \<Rightarrow> db_error + db" where
  "delete_partner_transaction c d tid =
     (case find_transaction tid (partner_transactions d) of
        None \<Rightarrow> Inr d
      | Some old \<Rightarrow>
          Inr (d\<lparr>partner_transactions := remove_transaction tid (partner_transactions d),
                  partners := update_business_partner_balances c (DELETE old) (partners d)\<rparr>))"

text \<open>The same three statements on \<^verbatim>\<open>personal_transactions\<close>.\<close>

definition insert_personal_transaction :: "db \<Rightarrow> transaction \<Rightarrow> db_error + db" where
  "insert_personal_transaction d new =
     (case personal_checks (partners d) new of
        Some e \<Rightarrow> Inl e
      | None \<Rightarrow>
          if find_transaction (tx_id new) (personal_transactions d) \<noteq> None
          then Inl UniqueViolation
          else Inr (d\<lparr>personal_transactions := personal_transactions d @ [new],
                      personal_balances :=
                        update_personal_balances (INSERT new) (personal_balances d)\<rparr>))"

definition update_personal_transaction ::
  "timestamptz \<Rightarrow> db \<Rightarrow> uuid \<Rightarrow> (transaction \<Rightarrow> transaction) \<Rightarrow> db_error + db" where
  "update_personal_transaction now d tid f =
     (case find_transaction tid (personal_transactions d) of
        None \<Rightarrow> Inr d
      | Some old \<Rightarrow>
          (let new = new_row now old f
           in (case personal_checks (partners d) new of
                 Some e \<Rightarrow> Inl e
               | None \<Rightarrow>
                   Inr (d\<lparr>personal_transactions :=
                             replace_transaction tid new (personal_transactions d),
                           personal_balances :=
                             update_personal_balances (UPDATE old new) (personal_balances d)\<rparr>))))"

definition delete_personal_transaction :: "db \<Rightarrow> uuid \<Rightarrow> db_error + db" where
  "delete_personal_transaction d tid =
     (case find_transaction tid (personal_transactions d) of
        None \<Rightarrow> Inr d
      | Some old \<Rightarrow>
          Inr (d\<lparr>personal_transactions := remove_transaction tid (personal_transactions d),
                  personal_balances :=
                    update_personal_balances (DELETE old) (personal_balances d)\<rparr>))"

section \<open>Statements on the sales table\<close>

definition find_sale :: "uuid \<Rightarrow> sale list \<Rightarrow> sale option" where
  "find_sale sid rows = find (\<lambda>r. sale_id r = sid) rows"

text \<open>
  The foreign keys of \<^verbatim>\<open>daily_sales\<close>: \<^verbatim>\<open>created_by\<close> (NOT NULL) and
  \<^verbatim>\<open>partner_id\<close> (nullable) reference \<^verbatim>\<open>partners\<close>.
\<close>

definition sale_foreign_keys :: "(uuid \<rightharpoonup> numeric) \<Rightarrow> sale \<Rightarrow> bool" where
  "sale_foreign_keys ps r =
     (ps (created_by r) \<noteq> None \<and>
      (case partner_id r of None \<Rightarrow> True | Some p \<Rightarrow> ps p \<noteq> None))"

text \<open>
  \<^verbatim>\<open>INSERT INTO daily_sales\<close>, sent by \<open>c\<close>: the primary key and
  \<^verbatim>\<open>date date UNIQUE NOT NULL\<close> are unique indexes. As for the transaction tables, \<open>c\<close>
  decides which rows of \<^verbatim>\<open>partners\<close> the trigger reaches.
\<close>

definition insert_daily_sale :: "caller \<Rightarrow> db \<Rightarrow> sale \<Rightarrow> db_error + db" where
  "insert_daily_sale c d new =
     (if find_sale (sale_id new) (daily_sales d) \<noteq> None then Inl UniqueViolation
      else if find (\<lambda>r. date r = date new) (daily_sales d) \<noteq> None then Inl UniqueViolation
      else if \<not> sale_foreign_keys (partners d) new then Inl ForeignKeyViolation
      else Inr (d\<lparr>daily_sales := daily_sales d @ [new],
                  partners := update_partner_balance_from_sales c (INSERT new) (partners d)\<rparr>))"

definition update_daily_sale ::
  "caller \<Rightarrow> db \<Rightarrow> uuid \<Rightarrow> (sale \<Rightarrow> sale) \<Rightarrow> db_error + db" where
  "update_daily_sale c d sid f =
     (case find_sale sid (daily_sales d) of
        None \<Rightarrow> Inr d
      | Some old \<Rightarrow>
          (let new = (f old)\<lparr>sale_id := sale_id old\<rparr>
           in if find (\<lambda>r. date r = date new \<and> sale_id r \<noteq> sid) (daily_sales d) \<noteq> None
              then Inl UniqueViolation
              else if \<not> sale_foreign_keys (partners d) new then Inl ForeignKeyViolation
              else Inr (d\<lparr>daily_sales :=
                             map (\<lambda>r. if sale_id r = sid then new else r) (daily_sales d),
                           partners :=
                             update_partner_balance_from_sales c (UPDATE old new) (partners d)\<rparr>)))"

definition delete_daily_sale :: "caller \<Rightarrow> db \<Rightarrow> uuid \<Rightarrow> db_error + db" where
  "delete_daily_sale c d sid =
     (case find_sale sid (daily_sales d) of
        None \<Rightarrow> Inr d
      | Some old \<Rightarrow>
          Inr (d\<lparr>daily_sales := filter (\<lambda>r. sale_id r \<noteq> sid) (daily_sales d),
                  partners := update_partner_balance_from_sales c (DELETE old) (partners d)\<rparr>))"

section \<open>Recalculation of all balances\<close>

text \<open>
  The block that recalculates \<^verbatim>\<open>current_balance\<close> for every partner from the sales and
  the approved business transactions: reset to 0, set to the total of the partner's sales
  (\<^verbatim>\<open>COALESCE(SUM(ds.total_amount), 0)\<close> over the rows with that \<^verbatim>\<open>partner_id\<close>), add
  the signed sum of the approved transactions that touch the partner.
\<close>

definition total_sales :: "sale list \<Rightarrow> uuid \<Rightarrow> numeric" where
  "total_sales rows p =
     sum_list (map total_amount (filter (\<lambda>ds. partner_id ds = Some p) rows))"

definition approved_net :: "transaction list \<Rightarrow> uuid \<Rightarrow> numeric" where
  "approved_net rows p =
     sum_list
       (map (\<lambda>pt. if to_partner_id pt = p then amount pt
                  else if from_partner_id pt = p then - amount pt
                  else 0)
          (filter (\<lambda>pt. (from_partner_id pt = p \<or> to_partner_id pt = p)
                         \<and> status pt = Approved) rows))"

definition recalculate_balances :: "db \<Rightarrow> db" where
  "recalculate_balances d =
     (let ps0 = (\<lambda>p. map_option (\<lambda>b. (0::numeric)) (partners d p));
          ps1 = (\<lambda>p. map_option (\<lambda>b. total_sales (daily_sales d) p) (ps0 p));
          ps2 = (\<lambda>p. map_option (\<lambda>b. b + approved_net (partner_transactions d) p) (ps1 p))
      in d\<lparr>partners := ps2\<rparr>)"

section \<open>Histories of statements\<close>

text \<open>
  The statements on sales and on business transactions carry their sender, since their
  triggers write \<^verbatim>\<open>partners\<close>.
\<close>

datatype op =
    InsertSale caller sale
  | UpdateSale caller uuid "sale \<Rightarrow> sale"
  | DeleteSale caller uuid
  | InsertBusiness caller transaction
  | UpdateBusiness caller timestamptz uuid "transaction \<Rightarrow> transaction"
  | DeleteBusiness caller uuid
  | InsertPersonal transaction
  | UpdatePersonal timestamptz uuid "transaction \<Rightarrow> transaction"
  | DeletePersonal uuid

fun apply_op :: "db \<Rightarrow> op \<Rightarrow> db_error + db" where
  "apply_op d (InsertSale c r) = insert_daily_sale c d r"
| "apply_op d (UpdateSale c sid f) = update_daily_sale c d sid f"
| "apply_op d (DeleteSale c sid) = delete_daily_sale c d sid"
| "apply_op d (InsertBusiness c r) = insert_partner_transaction c d r"
| "apply_op d (UpdateBusiness c now tid f) = update_partner_transaction c now d tid f"
| "apply_op d (DeleteBusiness c tid) = delete_partner_transaction c d tid"
| "apply_op d (InsertPersonal r) = insert_personal_transaction d r"
| "apply_op d (UpdatePersonal now tid f) = update_personal_transaction now d tid f"
| "apply_op d (DeletePersonal tid) = delete_personal_transaction d tid"

text \<open>A statement that raises is rolled back, and the history goes on.\<close>

definition exec_op :: "db \<Rightarrow> op \<Rightarrow> db" where
  "exec_op d x = (case apply_op d x of Inl e \<Rightarrow> d | Inr d' \<Rightarrow> d')"

fun exec_ops :: "db \<Rightarrow> op list \<Rightarrow> db" where
  "exec_ops d [] = d"
| "exec_ops d (x # xs) = exec_ops (exec_op d x) xs"

text \<open>The initial state: the given partners, each with balance 0, and no other row.\<close>

definition init_db :: "uuid list \<Rightarrow> db" where
  "init_db ids =
     \<lparr>partners = (\<lambda>p. if p \<in> set ids then Some 0 else None),
      daily_sales = [],
      partner_transactions = [],
      personal_transactions = [],
      personal_balances = Map.empty\<rparr>"

section \<open>Update policies and the approval handlers\<close>

text \<open>
  The USING expression of the UPDATE policies of \<^verbatim>\<open>partner_transactions\<close> and of
  \<^verbatim>\<open>personal_transactions\<close> (the same expression), for the user \<open>uid\<close> that
  \<^verbatim>\<open>auth.uid()\<close> returns.
\<close>

definition update_policy_using :: "uuid \<Rightarrow> transaction \<Rightarrow> bool" where
  "update_policy_using uid r =
     ((uid = from_partner_id r \<and> status r = Pending) \<or>
      (uid = to_partner_id r \<and> status r = Pending) \<or>
      (status r = Approved \<and> (uid = from_partner_id r \<or> uid = to_partner_id r)))"

text \<open>
  A policy with no WITH CHECK clause applies its USING expression to the new row too.
\<close>

definition with_check_default :: "uuid \<Rightarrow> transaction \<Rightarrow> transaction \<Rightarrow> bool" where
  "with_check_default uid old new = update_policy_using uid new"

text \<open>
  The WITH CHECK clause that one migration gives the policy of
  \<^verbatim>\<open>personal_transactions\<close>, with \<^verbatim>\<open>OLD\<close> and \<^verbatim>\<open>NEW\<close> read as the row before and
  after the update.
\<close>

definition with_check_workflow :: "uuid \<Rightarrow> transaction \<Rightarrow> transaction \<Rightarrow> bool" where
  "with_check_workflow uid old new =
     (if uid = from_partner_id new \<and> status old = Pending then status new = Pending
      else if uid = to_partner_id new \<and> status old = Pending
        then (status new = Approved \<or> status new = Rejected) \<and> approved_by new = Some uid
      else if status old = Approved \<and> (uid = from_partner_id new \<or> uid = to_partner_id new)
        then status new = Pending \<and> approved_by new = None \<and> approved_at new = None
      else False)"

text \<open>
  An UPDATE issued by the user \<open>uid\<close>: a row the USING expression hides is not updated,
  a new row the check refuses raises, and the statement runs, with its triggers, as
  \<open>uid\<close>.
\<close>

definition rls_update_partner_transaction ::
  "uuid \<Rightarrow> timestamptz \<Rightarrow> db \<Rightarrow> uuid \<Rightarrow> (transaction \<Rightarrow> transaction) \<Rightarrow> db_error + db" where
  "rls_update_partner_transaction uid now d tid f =
     (case find_transaction tid (partner_transactions d) of
        None \<Rightarrow> Inr d
      | Some old \<Rightarrow>
          if \<not> update_policy_using uid old then Inr d
          else if \<not> with_check_default uid old (new_row now old f) then Inl RlsViolation
          else update_partner_transaction (Some uid) now d tid f)"

definition rls_update_personal_transaction ::
  "(uuid \<Rightarrow> transaction \<Rightarrow> transaction \<Rightarrow> bool) \<Rightarrow>
   uuid \<Rightarrow> timestamptz \<Rightarrow> db \<Rightarrow> uuid \<Rightarrow> (transaction \<Rightarrow> transaction) \<Rightarrow> db_error + db" where
  "rls_update_personal_transaction with_check uid now d tid f =
     (case find_transaction tid (personal_transactions d) of
        None \<Rightarrow> Inr d
      | Some old \<Rightarrow>
          if \<not> update_policy_using uid old then Inr d
          else if \<not> with_check uid old (new_row now old f) then Inl RlsViolation
          else update_personal_transaction now d tid f)"

datatype action = Approve | Reject

text \<open>
  The \<^verbatim>\<open>updateData\<close> object of \<^verbatim>\<open>handleTransactionApproval\<close> (personal space), as the
  SET clause it becomes; an empty reason is falsy.
\<close>

definition updateData :: "action \<Rightarrow> uuid \<Rightarrow> string option \<Rightarrow> transaction \<Rightarrow> transaction" where
  "updateData act user reason r =
     (let r1 = r\<lparr>status := (if act = Approve then Approved else Rejected),
                 approved_by := Some user\<rparr>
      in (if act = Reject \<and> reason \<noteq> None \<and> reason \<noteq> Some []
          then r1\<lparr>rejection_reason := reason\<rparr> else r1))"

text \<open>
  \<^verbatim>\<open>handleTransactionApproval\<close>: the update is issued whatever the status of the row;
  an error of the statement is caught and reported. \<open>with_check\<close> is the check of the
  update policy in force.
\<close>

definition handleTransactionApproval ::
  "(uuid \<Rightarrow> transaction \<Rightarrow> transaction \<Rightarrow> bool) \<Rightarrow>
   uuid \<Rightarrow> timestamptz \<Rightarrow> db \<Rightarrow> uuid \<Rightarrow> action \<Rightarrow> string option \<Rightarrow> (db_error + unit) \<times> db" where
  "handleTransactionApproval with_check user now d transactionId act rejectionReason =
     (case rls_update_personal_transaction with_check user now d transactionId
             (updateData act user rejectionReason) of
        Inl e \<Rightarrow> (Inl e, d)
      | Inr d' \<Rightarrow> (Inr (), d'))"

text \<open>
  The pages compute with JavaScript numbers, which are IEEE doubles, not decimals. The
  client's \<^verbatim>\<open>+\<close> and \<^verbatim>\<open>-\<close> are therefore parameters of the handlers that use
  them, and nothing is assumed about them.
\<close>

type_synonym js_arith = "numeric \<Rightarrow> numeric \<Rightarrow> numeric"

text \<open>
  What a handler catches: a failed read (\<^verbatim>\<open>.single()\<close> with no row) or the error of
  a statement.
\<close>

datatype client_error = FetchError | StatementError db_error

text \<open>
  \<^verbatim>\<open>.from('partners').update({ current_balance: v }).eq('id', p)\<close> sent by the signed-in
  \<open>user\<close>: it reaches the user's own row only, and reports no error when it reaches
  none.
\<close>

definition set_current_balance ::
  "uuid \<Rightarrow> uuid \<Rightarrow> numeric \<Rightarrow> (uuid \<rightharpoonup> numeric) \<Rightarrow> (uuid \<rightharpoonup> numeric)" where
  "set_current_balance user p v ps =
     (if partners_update_policy (Some user) p
      then (case ps p of None \<Rightarrow> ps | Some b \<Rightarrow> ps(p \<mapsto> v))
      else ps)"

text \<open>
  The \<^verbatim>\<open>updateData\<close> object of \<^verbatim>\<open>handleApproveTransaction\<close> (partners page): it
  also sets \<^verbatim>\<open>approved_at\<close> to the client's clock.
\<close>

definition business_updateData ::
  "action \<Rightarrow> uuid \<Rightarrow> timestamptz \<Rightarrow> string option \<Rightarrow> transaction \<Rightarrow> transaction" where
  "business_updateData act user clock reason r =
     (updateData act user reason r)\<lparr>approved_at := Some clock\<rparr>"

text \<open>
  \<^verbatim>\<open>handleApproveTransaction\<close> of the partners page, for the signed-in \<open>user\<close>. It
  reads the transaction, sends the update whatever the status of the row, and, when the
  action is an approval, reads the two balances, computes the new ones on the client and
  writes them back with two further statements. Each statement is its own transaction:
  an error after the first leaves the earlier ones in place.
\<close>

definition handleApproveTransaction ::
  "js_arith \<Rightarrow> js_arith \<Rightarrow> uuid \<Rightarrow> timestamptz \<Rightarrow> timestamptz \<Rightarrow> db \<Rightarrow> uuid \<Rightarrow> action \<Rightarrow>
   string option \<Rightarrow> (client_error + unit) \<times> db" where
  "handleApproveTransaction js_sub js_add user clock now d transactionId act rejectionReason =
     (case find_transaction transactionId (partner_transactions d) of
        None \<Rightarrow> (Inl FetchError, d)
      | Some tx \<Rightarrow>
          (case rls_update_partner_transaction user now d transactionId
                  (business_updateData act user clock rejectionReason) of
             Inl e \<Rightarrow> (Inl (StatementError e), d)
           | Inr d1 \<Rightarrow>
               if act = Approve then
                 (case partners d1 (from_partner_id tx) of
                    None \<Rightarrow> (Inl FetchError, d1)
                  | Some sender \<Rightarrow>
                      (case partners d1 (to_partner_id tx) of
                         None \<Rightarrow> (Inl FetchError, d1)
                       | Some receiver \<Rightarrow>
                           (let newSenderBalance = js_sub sender (amount tx);
                                newReceiverBalance = js_add receiver (amount tx);
                                ps1 = set_current_balance user (from_partner_id tx)
                                        newSenderBalance (partners d1);
                                ps2 = set_current_balance user (to_partner_id tx)
                                        newReceiverBalance ps1
                            in (Inr (), d1\<lparr>partners := ps2\<rparr>))))
               else (Inr (), d1)))"

section \<open>The sales forms\<close>

record sales_form =
  form_date :: date
  form_online_amount :: numeric
  form_cash_amount :: numeric
  form_notes :: string

text \<open>The later version of the page adds the partner responsible for the sale.\<close>

record partner_sales_form = sales_form +
  form_partner_id :: "uuid option"






section \<open>Auxiliary notions\<close>

text \<open>
  A statement on a transaction table in which neither the old nor the new row has status
  Approved.
\<close>

fun leaves_approval_aside :: "db \<Rightarrow> op \<Rightarrow> bool" where
  "leaves_approval_aside d (InsertBusiness c r) = (status r \<noteq> Approved)"
| "leaves_approval_aside d (UpdateBusiness c now tid f) =
     (case find_transaction tid (partner_transactions d) of
        None \<Rightarrow> True
      | Some old \<Rightarrow> status old \<noteq> Approved \<and> status (new_row now old f) \<noteq> Approved)"
| "leaves_approval_aside d (DeleteBusiness c tid) =
     (case find_transaction tid (partner_transactions d) of
        None \<Rightarrow> True
      | Some old \<Rightarrow> status old \<noteq> Approved)"
| "leaves_approval_aside d (InsertPersonal r) = (status r \<noteq> Approved)"
| "leaves_approval_aside d (UpdatePersonal now tid f) =
     (case find_transaction tid (personal_transactions d) of
        None \<Rightarrow> True
      | Some old \<Rightarrow> status old \<noteq> Approved \<and> status (new_row now old f) \<noteq> Approved)"
| "leaves_approval_aside d (DeletePersonal tid) =
     (case find_transaction tid (personal_transactions d) of
        None \<Rightarrow> True
      | Some old \<Rightarrow> status old \<noteq> Approved)"
| "leaves_approval_aside d x = False"

text \<open>Every stored transaction row satisfies the CHECK on its approval columns.\<close>

definition rows_valid :: "db \<Rightarrow> bool" where
  "rows_valid d =
     ((\<forall>r \<in> set (partner_transactions d). valid_approval_status r) \<and>
      (\<forall>r \<in> set (personal_transactions d). valid_approval_status r))"

text \<open>
  What one sale and one business transaction contribute to the recalculated balance of
  partner \<open>p\<close>.
\<close>

definition sale_part :: "uuid \<Rightarrow> sale \<Rightarrow> numeric" where
  "sale_part p ds = (if partner_id ds = Some p then total_amount ds else 0)"

definition transaction_part :: "uuid \<Rightarrow> transaction \<Rightarrow> numeric" where
  "transaction_part p pt =
     (if status pt = Approved then
        (if to_partner_id pt = p then amount pt
         else if from_partner_id pt = p then - amount pt else 0)
      else 0)"

text \<open>
  A statement that is not an update of a business transaction from Approved to Approved
  with another \<^verbatim>\<open>from_partner_id\<close> or \<^verbatim>\<open>to_partner_id\<close>; a history of such statements.
\<close>

fun keeps_parties :: "db \<Rightarrow> op \<Rightarrow> bool" where
  "keeps_parties d (UpdateBusiness c now tid f) =
     (case find_transaction tid (partner_transactions d) of
        None \<Rightarrow> True
      | Some old \<Rightarrow>
          status old = Approved \<and> status (f old) = Approved \<longrightarrow>
          from_partner_id (f old) = from_partner_id old \<and>
          to_partner_id (f old) = to_partner_id old)"
| "keeps_parties d x = True"

fun history_keeps_parties :: "db \<Rightarrow> op list \<Rightarrow> bool" where
  "history_keeps_parties d [] = True"
| "history_keeps_parties d (x # xs) =
     (keeps_parties d x \<and> history_keeps_parties (exec_op d x) xs)"

text \<open>A statement whose trigger reaches every row of \<^verbatim>\<open>partners\<close>.\<close>

fun unrestricted :: "op \<Rightarrow> bool" where
  "unrestricted (InsertSale c r) = (c = None)"
| "unrestricted (UpdateSale c sid f) = (c = None)"
| "unrestricted (DeleteSale c sid) = (c = None)"
| "unrestricted (InsertBusiness c r) = (c = None)"
| "unrestricted (UpdateBusiness c now tid f) = (c = None)"
| "unrestricted (DeleteBusiness c tid) = (c = None)"
| "unrestricted x = True"

text \<open>
  Primary keys are unique and the parties of a business transaction differ; every
  partner's balance is the sum of the contributions of the stored rows.
\<close>

definition keys_distinct :: "db \<Rightarrow> bool" where
  "keys_distinct d =
     (distinct (map sale_id (daily_sales d)) \<and>
      distinct (map tx_id (partner_transactions d)) \<and>
      (\<forall>r \<in> set (partner_transactions d). from_partner_id r \<noteq> to_partner_id r))"

definition reconciled :: "db \<Rightarrow> bool" where
  "reconciled d =
     (\<forall>p b. partners d p = Some b \<longrightarrow>
        b = sum_list (map (sale_part p) (daily_sales d))
          + sum_list (map (transaction_part p) (partner_transactions d)))"

definition settled :: "db \<Rightarrow> bool" where
  "settled d = (keys_distinct d \<and> reconciled d)"

section \<open>A worked history\<close>

text \<open>
  Three partners 1, 2 and 3. Partner 1 records a sale of 1000 (500 online, 500 cash),
  then asks partner 2 for a business transfer of 300, which partner 2 approves at time 7.
  In the personal space, partner 1 lends 50 to partner 2. The history is run either by
  the partners themselves (\<open>as = Some\<close>) or by a role that bypasses row-level security
  (\<open>as = bypassing\<close>).
\<close>

definition bypassing :: "uuid \<Rightarrow> caller" where
  "bypassing u = None"

definition demo_sale :: sale where
  "demo_sale = \<lparr>sale_id = 10, date = 628, total_amount = 1000, online_amount = 500,
     cash_amount = 500, sale_notes = None, partner_id = Some 1, created_by = 1\<rparr>"

definition demo_pending :: transaction where
  "demo_pending = \<lparr>tx_id = 20, from_partner_id = 1, to_partner_id = 2, amount = 300,
     status = Pending, approved_by = None, approved_at = None, rejection_reason = None\<rparr>"

definition demo_loan :: transaction where
  "demo_loan = \<lparr>tx_id = 30, from_partner_id = 1, to_partner_id = 2, amount = 50,
     status = Approved, approved_by = Some 2, approved_at = Some 5, rejection_reason = None\<rparr>"

definition demo_sold :: "(uuid \<Rightarrow> caller) \<Rightarrow> db" where
  "demo_sold as = exec_ops (init_db [1, 2, 3]) [InsertSale (as 1) demo_sale]"

definition demo_requested :: "(uuid \<Rightarrow> caller) \<Rightarrow> db" where
  "demo_requested as = exec_ops (demo_sold as) [InsertBusiness (as 1) demo_pending]"

definition demo_approved :: "(uuid \<Rightarrow> caller) \<Rightarrow> db" where
  "demo_approved as =
     exec_ops (demo_requested as)
       [UpdateBusiness (as 2) 7 20 (business_updateData Approve 2 7 None)]"

text \<open>
  Partner 2 approves through the partners page, and then approves a second time.
\<close>

definition demo_first_approval :: "js_arith \<Rightarrow> js_arith \<Rightarrow> db" where
  "demo_first_approval js_sub js_add =
     snd (handleApproveTransaction js_sub js_add 2 7 7 (demo_requested Some) 20 Approve None)"

definition demo_second_approval :: "js_arith \<Rightarrow> js_arith \<Rightarrow> db" where
  "demo_second_approval js_sub js_add =
     snd (handleApproveTransaction js_sub js_add 2 9 9 (demo_first_approval js_sub js_add)
            20 Approve None)"

definition demo_lent :: db where
  "demo_lent = exec_ops (init_db [1, 2, 3]) [InsertPersonal demo_loan]"

text \<open>Edits of an approved transaction and of a sale.\<close>

definition redirect :: "transaction \<Rightarrow> transaction" where
  "redirect r = r\<lparr>to_partner_id := 3\<rparr>"

definition reprice :: "transaction \<Rightarrow> transaction" where
  "reprice r = r\<lparr>amount := 250\<rparr>"

definition reopen :: "transaction \<Rightarrow> transaction" where
  "reopen r = r\<lparr>status := Pending\<rparr>"

definition resplit :: "sale \<Rightarrow> sale" where
  "resplit r = r\<lparr>date := 629, online_amount := 400, cash_amount := 600,
     sale_notes := Some ''recount''\<rparr>"

definition demo_form :: sales_form where
  "demo_form = \<lparr>form_date = 628, form_online_amount = 200, form_cash_amount = 100,
     form_notes = []\<rparr>"

definition demo_partner_form :: partner_sales_form where
  "demo_partner_form = \<lparr>form_date = 628, form_online_amount = 200, form_cash_amount = 100,
     form_notes = [], form_partner_id = Some 2\<rparr>"

section \<open>Basic facts\<close>

lemmas demo_defs =
  demo_sale_def demo_pending_def demo_loan_def demo_sold_def demo_requested_def
  demo_approved_def demo_lent_def redirect_def reprice_def reopen_def resplit_def demo_form_def
  demo_partner_form_def bypassing_def partners_update_policy_def set_current_balance_def
  init_db_def exec_op_def insert_daily_sale_def update_daily_sale_def delete_daily_sale_def
  insert_partner_transaction_def update_partner_transaction_def delete_partner_transaction_def
  insert_personal_transaction_def update_personal_transaction_def
  delete_personal_transaction_def find_sale_def find_transaction_def sale_foreign_keys_def
  transaction_checks_def personal_checks_def valid_approval_status_def new_row_def
  handle_transaction_approval_def business_updateData_def updateData_def
  replace_transaction_def remove_transaction_def add_balance_def upsert_balance_def
  shift_balance_def pair_key_def signed_amount_def Let_def

lemma find_append_rows:
  "find P (xs @ ys) = (case find P xs of None \<Rightarrow> find P ys | Some x \<Rightarrow> Some x)"
  by (induction xs) simp_all

lemma find_transaction_id:
  "find_transaction tid rows = Some old \<Longrightarrow> tx_id old = tid"
  by (auto simp: find_transaction_def find_Some_iff)

lemma find_replace_transaction:
  "find_transaction tid rows = Some old \<Longrightarrow> tx_id new = tid \<Longrightarrow>
   find_transaction tid (replace_transaction tid new rows) = Some new"
  by (induction rows) (auto simp: find_transaction_def replace_transaction_def split: if_splits)

text \<open>The BEFORE UPDATE trigger writes the approval columns only.\<close>

lemma new_row_fields:
  "status (new_row now old f) = status (f old)"
  "amount (new_row now old f) = amount (f old)"
  "from_partner_id (new_row now old f) = from_partner_id (f old)"
  "to_partner_id (new_row now old f) = to_partner_id (f old)"
  "tx_id (new_row now old f) = tx_id old"
  by (simp_all add: new_row_def handle_transaction_approval_def Let_def)

lemma new_row_pending:
  "status (new_row now old f) = Pending \<Longrightarrow>
   approved_by (new_row now old f) = None \<and> approved_at (new_row now old f) = None \<and>
   rejection_reason (new_row now old f) = None"
  by (auto simp: new_row_def handle_transaction_approval_def Let_def split: if_splits)

lemma updateData_Approve:
  "status (updateData Approve user reason r) = Approved"
  "amount (updateData Approve user reason r) = amount r"
  "from_partner_id (updateData Approve user reason r) = from_partner_id r"
  "to_partner_id (updateData Approve user reason r) = to_partner_id r"
  "approved_by (updateData Approve user reason r) = Some user"
  by (simp_all add: updateData_def Let_def)

lemma business_trigger_same_amount:
  "status old = Approved \<Longrightarrow> status new = Approved \<Longrightarrow> amount old = amount new \<Longrightarrow>
   update_business_partner_balances c (UPDATE old new) ps = ps"
  by simp

lemma personal_trigger_same_amount:
  "status old = Approved \<Longrightarrow> status new = Approved \<Longrightarrow> amount old = amount new \<Longrightarrow>
   update_personal_balances (UPDATE old new) pb = pb"
  by simp

text \<open>The worked history, evaluated.\<close>

lemma demo_sold_balances:
  assumes "as = Some \<or> as = bypassing"
  shows "partners (demo_sold as) 1 = Some 1000 \<and> partners (demo_sold as) 2 = Some 0 \<and>
         partners (demo_sold as) 3 = Some 0 \<and> daily_sales (demo_sold as) = [demo_sale]"
  using assms by (auto simp: demo_defs)

lemma demo_requested_balances:
  assumes "as = Some \<or> as = bypassing"
  shows "partners (demo_requested as) 1 = Some 1000 \<and>
         partners (demo_requested as) 2 = Some 0 \<and> partners (demo_requested as) 3 = Some 0"
  using assms by (auto simp: demo_defs)

text \<open>
  Run by the partners, the approval by partner 2 reaches the row of partner 2 only: the
  300 arrive at partner 2 and never leave partner 1.
\<close>

lemma demo_approved_balances:
  "partners (demo_approved bypassing) 1 = Some 700 \<and>
   partners (demo_approved bypassing) 2 = Some 300 \<and>
   partners (demo_approved bypassing) 3 = Some 0 \<and>
   partners (demo_approved Some) 1 = Some 1000 \<and>
   partners (demo_approved Some) 2 = Some 300 \<and>
   partners (demo_approved Some) 3 = Some 0"
  by (simp add: demo_defs)

lemma demo_approved_row:
  assumes "as = Some \<or> as = bypassing"
  shows "find_transaction 20 (partner_transactions (demo_approved as)) =
           Some (demo_pending\<lparr>status := Approved, approved_by := Some 2,
                   approved_at := Some 7\<rparr>)"
  using assms by (auto simp: demo_defs)

lemma demo_lent_balance:
  "personal_balances demo_lent (1, 2) = Some (- 50)"
  by (simp add: demo_defs)

section \<open>Incremental balances and recalculation\<close>

lemma sum_list_map_filter_if:
  "sum_list (map f (filter P xs)) = sum_list (map (\<lambda>x. if P x then f x else (0::rat)) xs)"
  by (induction xs) simp_all

lemma total_sales_parts: "total_sales rows p = sum_list (map (sale_part p) rows)"
  unfolding total_sales_def sale_part_def by (rule sum_list_map_filter_if)

lemma approved_net_parts: "approved_net rows p = sum_list (map (transaction_part p) rows)"
  unfolding approved_net_def sum_list_map_filter_if
  by (rule arg_cong [where f = sum_list]) (auto simp: transaction_part_def)

lemma recalculated_partner:
  "partners (recalculate_balances d) p =
     map_option (\<lambda>b. sum_list (map (sale_part p) (daily_sales d))
                     + sum_list (map (transaction_part p) (partner_transactions d)))
       (partners d p)"
  by (cases "partners d p")
     (simp_all add: recalculate_balances_def Let_def total_sales_parts approved_net_parts)

lemma reconciled_iff: "reconciled d \<longleftrightarrow> partners (recalculate_balances d) = partners d"
proof
  assume r: "reconciled d"
  show "partners (recalculate_balances d) = partners d"
  proof
    fix p
    from r show "partners (recalculate_balances d) p = partners d p"
      by (cases "partners d p") (auto simp: recalculated_partner reconciled_def)
  qed
next
  assume e: "partners (recalculate_balances d) = partners d"
  show "reconciled d"
    unfolding reconciled_def
  proof (intro allI impI)
    fix p b
    assume "partners d p = Some b"
    with fun_cong [OF e, of p]
    show "b = sum_list (map (sale_part p) (daily_sales d))
            + sum_list (map (transaction_part p) (partner_transactions d))"
      by (simp add: recalculated_partner)
  qed
qed

lemma add_balance_apply:
  "add_balance None q x ps p = map_option (\<lambda>b. b + (if p = q then x else 0)) (ps p)"
  by (cases "ps p"; cases "ps q") (auto simp: add_balance_def partners_update_policy_def)

lemma sales_trigger_parts:
  "update_partner_balance_from_sales None (INSERT new) ps p =
     map_option (\<lambda>b. b + sale_part p new) (ps p)"
  "update_partner_balance_from_sales None (DELETE old) ps p =
     map_option (\<lambda>b. b - sale_part p old) (ps p)"
  "update_partner_balance_from_sales None (UPDATE old new) ps p =
     map_option (\<lambda>b. b - sale_part p old + sale_part p new) (ps p)"
  by (cases "ps p"; auto simp: add_balance_apply sale_part_def Let_def split: option.splits)+

lemma business_trigger_parts:
  "from_partner_id new \<noteq> to_partner_id new \<Longrightarrow>
   update_business_partner_balances None (INSERT new) ps p =
     map_option (\<lambda>b. b + transaction_part p new) (ps p)"
  "from_partner_id old \<noteq> to_partner_id old \<Longrightarrow>
   update_business_partner_balances None (DELETE old) ps p =
     map_option (\<lambda>b. b - transaction_part p old) (ps p)"
  "from_partner_id old \<noteq> to_partner_id old \<Longrightarrow>
   from_partner_id new \<noteq> to_partner_id new \<Longrightarrow>
   (status old = Approved \<and> status new = Approved \<longrightarrow>
      from_partner_id new = from_partner_id old \<and> to_partner_id new = to_partner_id old) \<Longrightarrow>
   update_business_partner_balances None (UPDATE old new) ps p =
     map_option (\<lambda>b. b - transaction_part p old + transaction_part p new) (ps p)"
  by (cases "ps p"; auto simp: add_balance_apply transaction_part_def Let_def)+

lemma sum_list_replace:
  assumes "distinct (map key rows)" and "find (\<lambda>r. key r = k) rows = Some old"
    and "key new = k"
  shows "sum_list (map g (map (\<lambda>r. if key r = k then new else r) rows)) =
           sum_list (map g rows) - g old + (g new :: rat)"
  using assms
proof (induction rows)
  case Nil
  then show ?case by simp
next
  case (Cons r rows)
  show ?case
  proof (cases "key r = k")
    case True
    with Cons.prems have "r = old" and "\<forall>x \<in> set rows. key x \<noteq> k"
      by (auto simp: image_iff)
    then have "map (\<lambda>r. if key r = k then new else r) rows = rows"
      by (simp add: map_idI)
    with True \<open>r = old\<close> show ?thesis by simp
  next
    case False
    with Cons show ?thesis by simp
  qed
qed

lemma sum_list_remove:
  assumes "distinct (map key rows)" and "find (\<lambda>r. key r = k) rows = Some old"
  shows "sum_list (map g (filter (\<lambda>r. key r \<noteq> k) rows)) = sum_list (map g rows) - (g old :: rat)"
  using assms
proof (induction rows)
  case Nil
  then show ?case by simp
next
  case (Cons r rows)
  show ?case
  proof (cases "key r = k")
    case True
    with Cons.prems have "r = old" and "\<forall>x \<in> set rows. key x \<noteq> k"
      by (auto simp: image_iff)
    then have "filter (\<lambda>r. key r \<noteq> k) rows = rows"
      by (simp add: filter_id_conv)
    with True \<open>r = old\<close> show ?thesis by simp
  next
    case False
    with Cons show ?thesis by simp
  qed
qed

lemma distinct_replace:
  "distinct (map key rows) \<Longrightarrow> key new = k \<Longrightarrow>
   distinct (map key (map (\<lambda>r. if key r = k then new else r) rows))"
proof -
  assume a: "distinct (map key rows)" "key new = k"
  then have eq: "map key (map (\<lambda>r. if key r = k then new else r) rows) = map key rows"
    by (induction rows) auto
  show ?thesis unfolding eq by (rule a(1))
qed

lemma distinct_remove:
  "distinct (map key rows) \<Longrightarrow> distinct (map key (filter P rows))"
  by (simp add: distinct_map_filter)

lemma find_fresh:
  "find (\<lambda>r. key r = k) rows = None \<Longrightarrow> k \<notin> set (map key rows)"
  by (auto simp: find_None_iff)


lemma insert_sale_settled:
  assumes "insert_daily_sale None d new = Inr d'" and "settled d"
  shows "settled d'"
proof -
  from assms(1) have fresh: "find_sale (sale_id new) (daily_sales d) = None"
    and d': "d' = d\<lparr>daily_sales := daily_sales d @ [new],
                  partners := update_partner_balance_from_sales None (INSERT new) (partners d)\<rparr>"
    by (auto simp: insert_daily_sale_def split: if_splits)
  from fresh have "sale_id new \<notin> set (map sale_id (daily_sales d))"
    unfolding find_sale_def by (rule find_fresh)
  with assms(2) have "keys_distinct d'"
    by (simp add: settled_def keys_distinct_def d')
  moreover from assms(2) have "reconciled d'"
    by (auto simp: settled_def reconciled_def d' sales_trigger_parts
        simp del: update_partner_balance_from_sales.simps)
  ultimately show ?thesis by (simp add: settled_def)
qed

lemma update_sale_settled:
  assumes "update_daily_sale None d sid f = Inr d'" and "settled d"
  shows "settled d'"
proof (cases "find_sale sid (daily_sales d)")
  case None
  with assms show ?thesis by (simp add: update_daily_sale_def)
next
  case (Some old)
  let ?new = "(f old)\<lparr>sale_id := sale_id old\<rparr>"
  from Some have k: "sale_id old = sid"
    by (auto simp: find_sale_def find_Some_iff)
  from assms(1) Some have d': "d' = d\<lparr>daily_sales :=
          map (\<lambda>r. if sale_id r = sid then ?new else r) (daily_sales d),
        partners := update_partner_balance_from_sales None (UPDATE old ?new) (partners d)\<rparr>"
    by (auto simp: update_daily_sale_def Let_def split: if_splits)
  from assms(2) have dis: "distinct (map sale_id (daily_sales d))"
    by (simp add: settled_def keys_distinct_def)
  have sum: "\<And>g. sum_list (map g (map (\<lambda>r. if sale_id r = sid then ?new else r) (daily_sales d)))
      = sum_list (map g (daily_sales d)) - g old + (g ?new :: rat)"
    using dis Some k by (intro sum_list_replace) (simp_all add: find_sale_def)
  have "keys_distinct d'"
    using assms(2) distinct_replace [OF dis, of ?new sid] k
    by (simp add: settled_def keys_distinct_def d')
  moreover from assms(2) have "reconciled d'"
    by (auto simp: settled_def reconciled_def d' sales_trigger_parts sum
        simp del: update_partner_balance_from_sales.simps map_map)
  ultimately show ?thesis by (simp add: settled_def)
qed

lemma delete_sale_settled:
  assumes "delete_daily_sale None d sid = Inr d'" and "settled d"
  shows "settled d'"
proof (cases "find_sale sid (daily_sales d)")
  case None
  with assms show ?thesis by (simp add: delete_daily_sale_def)
next
  case (Some old)
  from assms(1) Some have d': "d' = d\<lparr>daily_sales :=
          filter (\<lambda>r. sale_id r \<noteq> sid) (daily_sales d),
        partners := update_partner_balance_from_sales None (DELETE old) (partners d)\<rparr>"
    by (auto simp: delete_daily_sale_def)
  from assms(2) have dis: "distinct (map sale_id (daily_sales d))"
    by (simp add: settled_def keys_distinct_def)
  have sum: "\<And>g. sum_list (map g (filter (\<lambda>r. sale_id r \<noteq> sid) (daily_sales d)))
      = sum_list (map g (daily_sales d)) - (g old :: rat)"
    using dis Some by (intro sum_list_remove) (simp_all add: find_sale_def)
  have "keys_distinct d'"
    using assms(2) distinct_remove [OF dis]
    by (simp add: settled_def keys_distinct_def d')
  moreover from assms(2) have "reconciled d'"
    by (auto simp: settled_def reconciled_def d' sales_trigger_parts sum
        simp del: update_partner_balance_from_sales.simps)
  ultimately show ?thesis by (simp add: settled_def)
qed

lemma checks_differ:
  "transaction_checks ps r = None \<Longrightarrow> from_partner_id r \<noteq> to_partner_id r"
  by (auto simp: transaction_checks_def split: if_splits)

lemma insert_business_settled:
  assumes "insert_partner_transaction None d new = Inr d'" and "settled d"
  shows "settled d'"
proof -
  from assms(1) have fresh: "find_transaction (tx_id new) (partner_transactions d) = None"
    and chk: "transaction_checks (partners d) new = None"
    and d': "d' = d\<lparr>partner_transactions := partner_transactions d @ [new],
                  partners := update_business_partner_balances None (INSERT new) (partners d)\<rparr>"
    by (auto simp: insert_partner_transaction_def split: option.splits if_splits)
  note ne = checks_differ [OF chk]
  from fresh have "tx_id new \<notin> set (map tx_id (partner_transactions d))"
    unfolding find_transaction_def by (rule find_fresh)
  with assms(2) ne have "keys_distinct d'"
    by (simp add: settled_def keys_distinct_def d')
  moreover from assms(2) have "reconciled d'"
    by (auto simp: settled_def reconciled_def d' business_trigger_parts(1) [OF ne]
        simp del: update_business_partner_balances.simps)
  ultimately show ?thesis by (simp add: settled_def)
qed

lemma update_business_settled:
  assumes "update_partner_transaction None now d tid f = Inr d'" and "settled d"
    and "keeps_parties d (UpdateBusiness None now tid f)"
  shows "settled d'"
proof (cases "find_transaction tid (partner_transactions d)")
  case None
  with assms show ?thesis by (simp add: update_partner_transaction_def)
next
  case (Some old)
  let ?new = "new_row now old f"
  from Some have k: "tx_id old = tid" by (rule find_transaction_id)
  from Some have mem: "old \<in> set (partner_transactions d)"
    by (auto simp: find_transaction_def find_Some_iff)
  from assms(1) Some have chk: "transaction_checks (partners d) ?new = None"
    and d': "d' = d\<lparr>partner_transactions :=
          replace_transaction tid ?new (partner_transactions d),
        partners := update_business_partner_balances None (UPDATE old ?new) (partners d)\<rparr>"
    by (auto simp: update_partner_transaction_def Let_def split: option.splits)
  note ne = checks_differ [OF chk]
  from assms(2) have dis: "distinct (map tx_id (partner_transactions d))"
    and neq: "\<forall>r \<in> set (partner_transactions d). from_partner_id r \<noteq> to_partner_id r"
    by (simp_all add: settled_def keys_distinct_def)
  from neq mem have ne_old: "from_partner_id old \<noteq> to_partner_id old" by blast
  from assms(3) Some have kp: "status old = Approved \<and> status ?new = Approved \<longrightarrow>
      from_partner_id ?new = from_partner_id old \<and> to_partner_id ?new = to_partner_id old"
    by (simp add: new_row_fields)
  have sum: "\<And>g. sum_list (map g (replace_transaction tid ?new (partner_transactions d)))
      = sum_list (map g (partner_transactions d)) - g old + (g ?new :: rat)"
    unfolding replace_transaction_def
    using dis Some k
    by (intro sum_list_replace) (simp_all add: find_transaction_def new_row_fields)
  have "distinct (map tx_id (replace_transaction tid ?new (partner_transactions d)))"
    unfolding replace_transaction_def
    using k by (intro distinct_replace [OF dis]) (simp add: new_row_fields)
  moreover have "\<forall>r \<in> set (replace_transaction tid ?new (partner_transactions d)).
      from_partner_id r \<noteq> to_partner_id r"
    using neq ne by (auto simp: replace_transaction_def)
  ultimately have "keys_distinct d'"
    using assms(2) by (simp add: settled_def keys_distinct_def d')
  moreover from assms(2) have "reconciled d'"
    by (auto simp: settled_def reconciled_def d' business_trigger_parts(3) [OF ne_old ne kp] sum
        simp del: update_business_partner_balances.simps)
  ultimately show ?thesis by (simp add: settled_def)
qed

lemma delete_business_settled:
  assumes "delete_partner_transaction None d tid = Inr d'" and "settled d"
  shows "settled d'"
proof (cases "find_transaction tid (partner_transactions d)")
  case None
  with assms show ?thesis by (simp add: delete_partner_transaction_def)
next
  case (Some old)
  from Some have mem: "old \<in> set (partner_transactions d)"
    by (auto simp: find_transaction_def find_Some_iff)
  from assms(1) Some have d': "d' = d\<lparr>partner_transactions :=
          remove_transaction tid (partner_transactions d),
        partners := update_business_partner_balances None (DELETE old) (partners d)\<rparr>"
    by (auto simp: delete_partner_transaction_def)
  from assms(2) have dis: "distinct (map tx_id (partner_transactions d))"
    and neq: "\<forall>r \<in> set (partner_transactions d). from_partner_id r \<noteq> to_partner_id r"
    by (simp_all add: settled_def keys_distinct_def)
  from neq mem have ne_old: "from_partner_id old \<noteq> to_partner_id old" by blast
  have sum: "\<And>g. sum_list (map g (remove_transaction tid (partner_transactions d)))
      = sum_list (map g (partner_transactions d)) - (g old :: rat)"
    unfolding remove_transaction_def
    using dis Some by (intro sum_list_remove) (simp_all add: find_transaction_def)
  have "keys_distinct d'"
    using assms(2) distinct_remove [OF dis] neq
    by (simp add: settled_def keys_distinct_def d' remove_transaction_def)
  moreover from assms(2) have "reconciled d'"
    by (auto simp: settled_def reconciled_def d' business_trigger_parts(2) [OF ne_old] sum
        simp del: update_business_partner_balances.simps)
  ultimately show ?thesis by (simp add: settled_def)
qed

lemma personal_statements_settled:
  "insert_personal_transaction d r = Inr d' \<Longrightarrow> settled d \<Longrightarrow> settled d'"
  "update_personal_transaction now d tid f = Inr d' \<Longrightarrow> settled d \<Longrightarrow> settled d'"
  "delete_personal_transaction d tid = Inr d' \<Longrightarrow> settled d \<Longrightarrow> settled d'"
  by (auto simp: insert_personal_transaction_def update_personal_transaction_def
      delete_personal_transaction_def settled_def keys_distinct_def reconciled_def Let_def
      split: option.splits if_splits)

lemma exec_op_settled:
  assumes "settled d" and "keeps_parties d x" and "unrestricted x"
  shows "settled (exec_op d x)"
proof (cases "apply_op d x")
  case (Inl e)
  with assms show ?thesis by (simp add: exec_op_def)
next
  case (Inr d')
  then have "settled d'"
    using assms
    by (cases x)
       (auto intro: insert_sale_settled update_sale_settled delete_sale_settled
          insert_business_settled update_business_settled delete_business_settled
          personal_statements_settled)
  with Inr show ?thesis by (simp add: exec_op_def)
qed

lemma exec_ops_settled:
  "settled d \<Longrightarrow> history_keeps_parties d xs \<Longrightarrow> \<forall>x \<in> set xs. unrestricted x \<Longrightarrow>
   settled (exec_ops d xs)"
  by (induction xs arbitrary: d) (simp_all add: exec_op_settled)

lemma init_settled: "settled (init_db ids)"
  by (simp add: settled_def keys_distinct_def reconciled_def init_db_def)

text \<open>
  For a history run by a role that bypasses row-level security, and as long as no
  statement changes the parties of a business transaction that is and stays Approved,
  the balances the triggers have built are the balances the recalculation gives.
\<close>

lemma incremental_equals_recalculation:
  assumes "history_keeps_parties (init_db ids) xs" and "\<forall>x \<in> set xs. unrestricted x"
  shows "partners (recalculate_balances (exec_ops (init_db ids) xs))
           = partners (exec_ops (init_db ids) xs)"
  using exec_ops_settled [OF init_settled assms]
  by (simp add: settled_def reconciled_iff)

lemma demo_history_reconciled:
  "partners (recalculate_balances (demo_approved bypassing)) = partners (demo_approved bypassing)"
proof -
  let ?xs = "[InsertSale None demo_sale, InsertBusiness None demo_pending,
              UpdateBusiness None 7 20 (business_updateData Approve 2 7 None)]"
  have run: "exec_ops (init_db [1, 2, 3]) ?xs = demo_approved bypassing"
    by (simp add: demo_approved_def demo_requested_def demo_sold_def bypassing_def)
  have "history_keeps_parties (init_db [1, 2, 3]) ?xs"
    by (simp add: demo_defs)
  moreover have "\<forall>x \<in> set ?xs. unrestricted x" by simp
  ultimately show ?thesis
    using incremental_equals_recalculation [of "[1, 2, 3]" ?xs]
    by (simp only: run)
qed

text \<open>Recalculating twice gives what recalculating once gives.\<close>

lemma recalculate_balances_idempotent:
  "recalculate_balances (recalculate_balances d) = recalculate_balances d"
  by (simp add: recalculate_balances_def Let_def fun_eq_iff option.map_comp comp_def)

text \<open>
  C1. After every history of statements on sales and transactions from the all-zero state,
  each partner's \<^verbatim>\<open>current_balance\<close> should be what the recalculation gives. The
  business trigger does not keep this when the parties of an Approved transaction are
  edited: after the worked history, the approved transfer of 300 is redirected from
  partner 2 to partner 3. Status and amount are unchanged, so the trigger adjusts
  nothing; partner 2 keeps 300 and partner 3 keeps 0, where the recalculation gives 0 and
  300. This is so when the history is run by a role that bypasses row-level security,
  and when it is run by the partners, the redirect being sent by partner 1.
\<close>

theorem recalculation_differs_after_redirect:
  "partners (exec_ops (demo_approved bypassing) [UpdateBusiness None 8 20 redirect]) 2
     = Some 300 \<and>
   partners (recalculate_balances
      (exec_ops (demo_approved bypassing) [UpdateBusiness None 8 20 redirect])) 2 = Some 0 \<and>
   partners (exec_ops (demo_approved bypassing) [UpdateBusiness None 8 20 redirect]) 3
     = Some 0 \<and>
   partners (recalculate_balances
      (exec_ops (demo_approved bypassing) [UpdateBusiness None 8 20 redirect])) 3 = Some 300 \<and>
   partners (exec_ops (demo_approved Some) [UpdateBusiness (Some 1) 8 20 redirect]) 2
     = Some 300 \<and>
   partners (recalculate_balances
      (exec_ops (demo_approved Some) [UpdateBusiness (Some 1) 8 20 redirect])) 2 = Some 0 \<and>
   partners (exec_ops (demo_approved Some) [UpdateBusiness (Some 1) 8 20 redirect]) 3
     = Some 0 \<and>
   partners (recalculate_balances
      (exec_ops (demo_approved Some) [UpdateBusiness (Some 1) 8 20 redirect])) 3 = Some 300"
  by (simp add: demo_defs recalculate_balances_def total_sales_def approved_net_def)

section \<open>Statements that leave approval aside\<close>

text \<open>
  C2. An insert, update or delete of a business or personal transaction row in which
  neither the old nor the new row is Approved changes no \<^verbatim>\<open>current_balance\<close> and no
  pairwise balance, whether the statement succeeds or raises.
\<close>

theorem non_approved_statement_keeps_balances:
  assumes "leaves_approval_aside d x"
  shows "partners (exec_op d x) = partners d \<and>
         personal_balances (exec_op d x) = personal_balances d"
  using assms
  by (cases x)
     (auto simp: exec_op_def insert_partner_transaction_def update_partner_transaction_def
        delete_partner_transaction_def insert_personal_transaction_def
        update_personal_transaction_def delete_personal_transaction_def Let_def
        split: option.splits)

theorem non_approved_statement_keeps_balances_witness:
  "leaves_approval_aside (demo_requested Some)
     (UpdateBusiness (Some 2) 8 20 (business_updateData Reject 2 8 (Some ''no''))) \<and>
   partners (exec_op (demo_requested Some)
      (UpdateBusiness (Some 2) 8 20 (business_updateData Reject 2 8 (Some ''no''))))
     = partners (demo_requested Some) \<and>
   personal_balances (exec_op (demo_requested Some)
      (UpdateBusiness (Some 2) 8 20 (business_updateData Reject 2 8 (Some ''no''))))
     = personal_balances (demo_requested Some)"
proof -
  have h: "leaves_approval_aside (demo_requested Some)
     (UpdateBusiness (Some 2) 8 20 (business_updateData Reject 2 8 (Some ''no'')))"
    by (simp add: demo_defs)
  from non_approved_statement_keeps_balances [OF h] h show ?thesis by blast
qed

section \<open>A second approval\<close>

text \<open>
  What the database does with the update of a second approval, sent by the receiver of an
  Approved business transaction: the update passes the policy and the constraints,
  rewrites the approval columns only, and its triggers change no balance.
\<close>

lemma reapproved_row:
  assumes "status old = Approved"
  shows "new_row now old (business_updateData Approve user clock reason) =
           old\<lparr>status := Approved, approved_by := Some user, approved_at := Some clock\<rparr>"
  using assms
  by (simp add: new_row_def business_updateData_def updateData_def
      handle_transaction_approval_def Let_def)

lemma second_approval_statement:
  assumes f: "find_transaction tid (partner_transactions d) = Some old"
    and a: "status old = Approved" and u: "user = to_partner_id old"
    and c: "transaction_checks (partners d) old = None"
  shows "rls_update_partner_transaction user now d tid
             (business_updateData Approve user clock reason) =
           Inr (d\<lparr>partner_transactions :=
                   replace_transaction tid
                     (old\<lparr>status := Approved, approved_by := Some user,
                          approved_at := Some clock\<rparr>)
                     (partner_transactions d)\<rparr>)"
proof -
  let ?new = "old\<lparr>status := Approved, approved_by := Some user, approved_at := Some clock\<rparr>"
  have n: "new_row now old (business_updateData Approve user clock reason) = ?new"
    by (rule reapproved_row [OF a])
  from c u have c': "transaction_checks (partners d) ?new = None"
    by (auto simp: transaction_checks_def valid_approval_status_def split: if_splits)
  have p: "update_policy_using user old" "with_check_default user old ?new"
    using a u by (simp_all add: update_policy_using_def with_check_default_def)
  show ?thesis
    using f a p c'
    by (simp add: rls_update_partner_transaction_def n update_partner_transaction_def)
qed

text \<open>
  What the handler of the partners page does with it: after the update it writes the
  receiver's balance plus the amount into the receiver's row once more. The row of the
  sender is out of the receiver's reach.
\<close>

lemma second_approval_handler:
  assumes f: "find_transaction tid (partner_transactions d) = Some old"
    and a: "status old = Approved" and u: "user = to_partner_id old"
    and c: "transaction_checks (partners d) old = None"
    and r: "partners d (to_partner_id old) = Some receiver"
  shows "handleApproveTransaction js_sub js_add user clock now d tid Approve reason =
           (Inr (),
            d\<lparr>partner_transactions :=
                 replace_transaction tid
                   (old\<lparr>status := Approved, approved_by := Some user,
                        approved_at := Some clock\<rparr>)
                   (partner_transactions d),
               partners := (partners d)(user \<mapsto> js_add receiver (amount old))\<rparr>)"
proof -
  from c have ne: "from_partner_id old \<noteq> to_partner_id old"
    and s: "partners d (from_partner_id old) \<noteq> None"
    by (auto simp: transaction_checks_def split: if_splits)
  from s obtain sender where s': "partners d (from_partner_id old) = Some sender" by auto
  note stmt = second_approval_statement [OF f a u c, of now clock reason]
  show ?thesis
    using f ne s' r u stmt
    by (simp add: handleApproveTransaction_def set_current_balance_def
        partners_update_policy_def Let_def)
qed

text \<open>
  The handler of the personal space has no such tail: a second approval through it
  changes no balance, whatever the check of the update policy answers (with the USING
  expression alone the update is carried out, with the workflow check it raises).
\<close>

lemma second_personal_approval:
  assumes f: "find_transaction tid (personal_transactions d) = Some old"
    and a: "status old = Approved"
  shows "partners (snd (handleTransactionApproval wc user now d tid Approve reason)) = partners d"
    and "personal_balances (snd (handleTransactionApproval wc user now d tid Approve reason))
           = personal_balances d"
  using assms
  by (auto simp: handleTransactionApproval_def rls_update_personal_transaction_def
      update_personal_transaction_def new_row_fields updateData_Approve Let_def
      split: sum.splits option.splits if_splits)

lemma second_personal_approval_outcomes:
  "fst (handleTransactionApproval with_check_default 2 9 demo_lent 30 Approve None) = Inr () \<and>
   fst (handleTransactionApproval with_check_workflow 2 9 demo_lent 30 Approve None)
     = Inl RlsViolation"
  by (simp add: demo_defs handleTransactionApproval_def rls_update_personal_transaction_def
      update_policy_using_def with_check_default_def with_check_workflow_def)

text \<open>The first approval through the partners page, evaluated.\<close>

lemma demo_first_approval_state:
  "find_transaction 20 (partner_transactions (demo_first_approval js_sub js_add)) =
     Some (demo_pending\<lparr>status := Approved, approved_by := Some 2, approved_at := Some 7\<rparr>) \<and>
   partners (demo_first_approval js_sub js_add) 1 = Some 1000 \<and>
   partners (demo_first_approval js_sub js_add) 2 = Some (js_add 300 300) \<and>
   partners (demo_first_approval js_sub js_add) 3 = Some 0"
  by (simp add: demo_first_approval_def demo_defs handleApproveTransaction_def
      rls_update_partner_transaction_def update_policy_using_def with_check_default_def)

text \<open>
  C3. A second approval of an already Approved transaction should fail and leave every
  balance unchanged. Through the partners page it does neither. Partner 2 has approved
  the transfer of 300 of the worked history, and approves it again: the handler never
  tests the status, the update policy admits the update of an Approved row, the call
  returns without error, and the handler writes the receiver's balance plus 300 into the
  receiver's row again. With \<open>js_add\<close> the client's addition, partner 2 goes from
  \<open>js_add 300 300\<close> to \<open>js_add (js_add 300 300) 300\<close>; in exact arithmetic, which
  doubles follow on these amounts, from 600 to 900.
\<close>

theorem second_approval_moves_balance:
  "map_option status
     (find_transaction 20 (partner_transactions (demo_first_approval js_sub js_add)))
     = Some Approved \<and>
   fst (handleApproveTransaction js_sub js_add 2 9 9 (demo_first_approval js_sub js_add)
          20 Approve None) = Inr () \<and>
   partners (demo_first_approval js_sub js_add) 2 = Some (js_add 300 300) \<and>
   partners (demo_second_approval js_sub js_add) 2 = Some (js_add (js_add 300 300) 300) \<and>
   partners (demo_first_approval (-) (+)) 2 = Some 600 \<and>
   partners (demo_second_approval (-) (+)) 2 = Some 900"
proof -
  let ?old = "demo_pending\<lparr>status := Approved, approved_by := Some 2, approved_at := Some 7\<rparr>"
  note st = demo_first_approval_state
  have f: "find_transaction 20 (partner_transactions (demo_first_approval sub add)) = Some ?old"
    and r: "partners (demo_first_approval sub add) (to_partner_id ?old) = Some (add 300 300)"
    for sub add
    using st [of sub add] by (simp_all add: demo_pending_def)
  have a: "status ?old = Approved" and u: "2 = to_partner_id ?old"
    by (simp_all add: demo_pending_def)
  have c: "transaction_checks (partners (demo_first_approval sub add)) ?old = None" for sub add
    using st [of sub add]
    by (simp add: transaction_checks_def valid_approval_status_def demo_pending_def)
  note h = second_approval_handler [OF f a u c r, where clock = 9 and now = 9 and reason = None]
  have two: "partners (demo_second_approval sub add) 2 = Some (add (add 300 300) 300)"
    for sub add
    by (simp add: demo_second_approval_def h demo_pending_def)
  from st [of js_sub js_add] h [of js_sub js_add js_sub js_add]
    two [of js_sub js_add] st [of "(-)" "(+)"] two [of "(-)" "(+)"]
  show ?thesis by simp
qed

section \<open>Edits of an approved business transaction\<close>

text \<open>
  What the trigger does on an update from Approved to Approved when its writes reach every
  row of \<^verbatim>\<open>partners\<close>: the from-partner of the updated row moves by \<open>X - Y\<close>, its
  to-partner by \<open>Y - X\<close>, and no other balance moves.
\<close>

lemma unrestricted_amount_change:
  assumes "find_transaction tid (partner_transactions d) = Some old"
    and "status old = Approved" and "status (f old) = Approved"
    and "update_partner_transaction None now d tid f = Inr d'"
  shows "\<exists>bf bt.
           from_partner_id (f old) \<noteq> to_partner_id (f old) \<and>
           partners d (from_partner_id (f old)) = Some bf \<and>
           partners d (to_partner_id (f old)) = Some bt \<and>
           partners d' =
             (partners d)(from_partner_id (f old) \<mapsto> bf + (amount old - amount (f old)),
                          to_partner_id (f old) \<mapsto> bt + (amount (f old) - amount old))"
proof -
  let ?new = "new_row now old f"
  from assms have chk: "transaction_checks (partners d) ?new = None"
    and d': "partners d' = update_business_partner_balances None (UPDATE old ?new) (partners d)"
    by (auto simp: update_partner_transaction_def Let_def split: option.splits)
  from chk have ne: "from_partner_id (f old) \<noteq> to_partner_id (f old)"
    and "partners d (from_partner_id (f old)) \<noteq> None"
    and "partners d (to_partner_id (f old)) \<noteq> None"
    by (auto simp: transaction_checks_def new_row_fields split: if_splits)
  then obtain bf bt where bf: "partners d (from_partner_id (f old)) = Some bf"
    and bt: "partners d (to_partner_id (f old)) = Some bt" by auto
  have "partners d' =
             (partners d)(from_partner_id (f old) \<mapsto> bf + (amount old - amount (f old)),
                          to_partner_id (f old) \<mapsto> bt + (amount (f old) - amount old))"
    using assms(2,3) ne bf bt
    by (auto simp: d' new_row_fields add_balance_def partners_update_policy_def fun_eq_iff
        Let_def)
  with ne bf bt show ?thesis by blast
qed

text \<open>
  Sent by a partner \<open>u\<close>, the same update moves at most the balance of \<open>u\<close>: every
  other row of \<^verbatim>\<open>partners\<close> is out of the trigger's reach.
\<close>

lemma partner_update_reaches_own_row:
  assumes "update_partner_transaction (Some u) now d tid f = Inr d'" and "p \<noteq> u"
  shows "partners d' p = partners d p"
  using assms
  by (auto simp: update_partner_transaction_def add_balance_def partners_update_policy_def
      Let_def split: option.splits if_splits)

text \<open>
  C4. An update of a business transaction from Approved to Approved that changes the
  amount from \<open>X\<close> to \<open>Y\<close> should move the from-partner's balance by \<open>X - Y\<close> and the
  to-partner's by \<open>Y - X\<close>. The trigger says so, but it runs as the partner who sent the
  update, and the policy of \<^verbatim>\<open>partners\<close> lets a partner update the own row only. In
  the worked history run by the partners, partner 1 lowers the approved transfer from
  300 to 250: partner 1 moves by 50, from 1000 to 1050, and partner 2 stays at 300
  instead of moving to 250.
\<close>

theorem amount_change_skips_other_party:
  "partners (demo_approved Some) 1 = Some 1000 \<and>
   partners (demo_approved Some) 2 = Some 300 \<and>
   map_option amount (find_transaction 20 (partner_transactions
      (exec_op (demo_approved Some) (UpdateBusiness (Some 1) 8 20 reprice)))) = Some 250 \<and>
   partners (exec_op (demo_approved Some) (UpdateBusiness (Some 1) 8 20 reprice)) 1
     = Some 1050 \<and>
   partners (exec_op (demo_approved Some) (UpdateBusiness (Some 1) 8 20 reprice)) 2
     = Some 300"
  by (simp add: demo_defs)

text \<open>
  C9. An update of a business transaction from Approved to Approved that keeps the amount
  adjusts no balance, also when it changes \<^verbatim>\<open>from_partner_id\<close> or \<^verbatim>\<open>to_partner_id\<close>
  (the statement carries no condition on them), whoever sends it.
\<close>

theorem approved_update_same_amount_no_adjustment:
  assumes "find_transaction tid (partner_transactions d) = Some old"
    and "status old = Approved" and "status (f old) = Approved"
    and "amount (f old) = amount old"
  shows "partners (exec_op d (UpdateBusiness c now tid f)) = partners d"
  using assms
  by (simp add: exec_op_def update_partner_transaction_def new_row_fields Let_def
      split: option.splits)

theorem approved_update_same_amount_no_adjustment_witness:
  "to_partner_id (redirect
      (demo_pending\<lparr>status := Approved, approved_by := Some 2, approved_at := Some 7\<rparr>)) = 3 \<and>
   map_option to_partner_id (find_transaction 20
      (partner_transactions (exec_op (demo_approved Some) (UpdateBusiness (Some 1) 8 20 redirect))))
     = Some 3 \<and>
   partners (exec_op (demo_approved Some) (UpdateBusiness (Some 1) 8 20 redirect))
     = partners (demo_approved Some)"
proof -
  let ?old = "demo_pending\<lparr>status := Approved, approved_by := Some 2, approved_at := Some 7\<rparr>"
  have h1: "find_transaction 20 (partner_transactions (demo_approved Some)) = Some ?old"
    by (rule demo_approved_row) simp
  have h2: "status ?old = Approved" by simp
  have h3: "status (redirect ?old) = Approved" by (simp add: redirect_def)
  have h4: "amount (redirect ?old) = amount ?old" by (simp add: redirect_def)
  have r: "map_option to_partner_id (find_transaction 20
      (partner_transactions (exec_op (demo_approved Some) (UpdateBusiness (Some 1) 8 20 redirect))))
     = Some 3"
    by (simp add: demo_defs)
  from approved_update_same_amount_no_adjustment [where f = redirect and now = 8
      and c = "Some 1", OF h1 h2 h3 h4] r
  show ?thesis by (simp add: redirect_def)
qed

section \<open>Pairwise balances\<close>

lemma signed_amount_lo:
  "from_partner_id r \<noteq> to_partner_id r \<Longrightarrow>
   signed_amount r =
     (if from_partner_id r = min (from_partner_id r) (to_partner_id r)
      then - amount r else amount r)"
  by (auto simp: signed_amount_def min_def)

lemma personal_insert_then_delete:
  assumes ins: "insert_personal_transaction d r = Inr d1"
    and appr: "status r = Approved"
  shows "delete_personal_transaction d1 (tx_id r) =
           Inr (d\<lparr>personal_transactions :=
                     remove_transaction (tx_id r) (personal_transactions d @ [r]),
                   personal_balances :=
                     (personal_balances d)(pair_key r \<mapsto>
                        (case personal_balances d (pair_key r) of None \<Rightarrow> 0 | Some b \<Rightarrow> b))\<rparr>)"
proof -
  from ins have fresh: "find_transaction (tx_id r) (personal_transactions d) = None"
    and d1: "d1 = d\<lparr>personal_transactions := personal_transactions d @ [r],
                  personal_balances := update_personal_balances (INSERT r) (personal_balances d)\<rparr>"
    by (auto simp: insert_personal_transaction_def split: option.splits if_splits)
  from fresh have found: "find_transaction (tx_id r) (personal_transactions d @ [r]) = Some r"
    by (simp add: find_transaction_def find_append_rows)
  have bal: "update_personal_balances (DELETE r)
               (update_personal_balances (INSERT r) (personal_balances d)) =
             (personal_balances d)(pair_key r \<mapsto>
                (case personal_balances d (pair_key r) of None \<Rightarrow> 0 | Some b \<Rightarrow> b))"
    using appr
    by (auto simp: upsert_balance_def shift_balance_def fun_eq_iff split: option.splits)
  show ?thesis
    using found
    by (simp add: delete_personal_transaction_def d1 bal
        del: update_personal_balances.simps)
qed

text \<open>
  C5. For an approved personal transaction from \<open>f\<close> to \<open>t\<close> (two different partners,
  as the table demands), with \<open>lo = min f t\<close> and \<open>hi = max f t\<close>: the trigger applies
  \<open>- amount\<close> to the pair \<open>(lo, hi)\<close> when \<open>f = lo\<close> and \<open>+ amount\<close> otherwise, on
  insert and on approval alike; the pair's row is created with that delta when absent and
  incremented otherwise; a delete subtracts the delta again; and deleting the transaction
  right after its insert restores the pairwise balance (a pair that had no row before
  holds 0 then).
\<close>

theorem personal_pairwise_delta:
  assumes "status r = Approved" and "from_partner_id r \<noteq> to_partner_id r"
  shows "let lo = min (from_partner_id r) (to_partner_id r);
             hi = max (from_partner_id r) (to_partner_id r);
             delta = (if from_partner_id r = lo then - amount r else amount r)
         in update_personal_balances (INSERT r) pb =
              pb((lo, hi) \<mapsto> (case pb (lo, hi) of None \<Rightarrow> delta | Some b \<Rightarrow> b + delta)) \<and>
            (status old \<noteq> Approved \<longrightarrow>
               update_personal_balances (UPDATE old r) pb =
                 pb((lo, hi) \<mapsto> (case pb (lo, hi) of None \<Rightarrow> delta | Some b \<Rightarrow> b + delta))) \<and>
            (\<forall>v. pb (lo, hi) = Some v \<longrightarrow>
               update_personal_balances (DELETE r) pb = pb((lo, hi) \<mapsto> v - delta)) \<and>
            (\<forall>d d1. insert_personal_transaction d r = Inr d1 \<longrightarrow>
               (case delete_personal_transaction d1 (tx_id r) of
                  Inl e \<Rightarrow> False
                | Inr d2 \<Rightarrow>
                    personal_balances d2 =
                      (personal_balances d)((lo, hi) \<mapsto>
                         (case personal_balances d (lo, hi) of None \<Rightarrow> 0 | Some b \<Rightarrow> b))))"
proof -
  have key: "pair_key r = (min (from_partner_id r) (to_partner_id r),
                           max (from_partner_id r) (to_partner_id r))"
    by (simp add: pair_key_def)
  note sg = signed_amount_lo [OF assms(2)]
  have ins: "update_personal_balances (INSERT r) pb =
      pb(pair_key r \<mapsto> (case pb (pair_key r) of None \<Rightarrow> signed_amount r
                                                 | Some b \<Rightarrow> b + signed_amount r))"
    using assms(1) by (auto simp: upsert_balance_def split: option.splits)
  have upd: "status old \<noteq> Approved \<longrightarrow> update_personal_balances (UPDATE old r) pb =
      pb(pair_key r \<mapsto> (case pb (pair_key r) of None \<Rightarrow> signed_amount r
                                                 | Some b \<Rightarrow> b + signed_amount r))"
    using assms(1) by (auto simp: upsert_balance_def split: option.splits)
  have del: "\<forall>v. pb (pair_key r) = Some v \<longrightarrow>
      update_personal_balances (DELETE r) pb = pb(pair_key r \<mapsto> v - signed_amount r)"
    using assms(1) by (auto simp: shift_balance_def)
  have both: "\<forall>d d1. insert_personal_transaction d r = Inr d1 \<longrightarrow>
      (case delete_personal_transaction d1 (tx_id r) of
         Inl e \<Rightarrow> False
       | Inr d2 \<Rightarrow>
           personal_balances d2 =
             (personal_balances d)(pair_key r \<mapsto>
                (case personal_balances d (pair_key r) of None \<Rightarrow> 0 | Some b \<Rightarrow> b)))"
    using personal_insert_then_delete [OF _ assms(1)] by simp
  from ins upd del both show ?thesis
    unfolding Let_def key sg by blast
qed

theorem personal_pairwise_delta_witness:
  "update_personal_balances (INSERT demo_loan) Map.empty (1, 2) = Some (- 50) \<and>
   update_personal_balances (DELETE demo_loan) [(1, 2) \<mapsto> - 50] (1, 2) = Some 0 \<and>
   (case delete_personal_transaction demo_lent 30 of
      Inl e \<Rightarrow> False
    | Inr d2 \<Rightarrow> personal_balances d2 (1, 2) = Some 0)"
proof -
  have h1: "status demo_loan = Approved" by (simp add: demo_loan_def)
  have h2: "from_partner_id demo_loan \<noteq> to_partner_id demo_loan" by (simp add: demo_loan_def)
  have i: "insert_personal_transaction (init_db [1, 2, 3]) demo_loan = Inr demo_lent"
    by (simp add: demo_defs)
  note t = personal_pairwise_delta [OF h1 h2, unfolded Let_def]
  note t1 = t [THEN conjunct1]
  note t3 = t [THEN conjunct2, THEN conjunct2, THEN conjunct1, rule_format]
  note t4 = t [THEN conjunct2, THEN conjunct2, THEN conjunct2, rule_format, OF i]
  have a: "update_personal_balances (INSERT demo_loan) Map.empty (1, 2) = Some (- 50)"
    by (subst t1) (simp add: demo_loan_def)
  have b: "update_personal_balances (DELETE demo_loan) [(1, 2) \<mapsto> - 50] (1, 2) = Some 0"
    by (subst t3 [where v = "- 50"]) (simp_all add: demo_loan_def)
  from t4 have c: "case delete_personal_transaction demo_lent 30 of
      Inl e \<Rightarrow> False
    | Inr d2 \<Rightarrow> personal_balances d2 (1, 2) = Some 0"
    by (auto simp: demo_loan_def init_db_def split: sum.splits)
  from a b c show ?thesis by blast
qed

section \<open>Sales\<close>

text \<open>
  C6. Creating a sale and deleting it right away leaves every partner's balance, and the
  sales table, as they were before the create, whoever sends the two statements.
\<close>

theorem create_then_delete_sale_restores:
  assumes "insert_daily_sale c d a = Inr d1"
  shows "case delete_daily_sale c d1 (sale_id a) of
           Inl e \<Rightarrow> False
         | Inr d2 \<Rightarrow> partners d2 = partners d \<and> daily_sales d2 = daily_sales d"
proof -
  from assms have fresh: "find_sale (sale_id a) (daily_sales d) = None"
    and d1: "d1 = d\<lparr>daily_sales := daily_sales d @ [a],
                  partners := update_partner_balance_from_sales c (INSERT a) (partners d)\<rparr>"
    by (auto simp: insert_daily_sale_def split: if_splits)
  from fresh have found: "find_sale (sale_id a) (daily_sales d @ [a]) = Some a"
    by (simp add: find_sale_def find_append_rows)
  from fresh have "\<forall>r \<in> set (daily_sales d). sale_id r \<noteq> sale_id a"
    by (auto simp: find_sale_def find_None_iff)
  then have rows: "filter (\<lambda>r. sale_id r \<noteq> sale_id a) (daily_sales d @ [a]) = daily_sales d"
    by (simp add: filter_id_conv)
  have bal: "update_partner_balance_from_sales c (DELETE a)
               (update_partner_balance_from_sales c (INSERT a) (partners d)) = partners d"
    by (auto simp: add_balance_def fun_eq_iff split: option.splits)
  show ?thesis
    by (simp add: delete_daily_sale_def d1 found rows bal
        del: update_partner_balance_from_sales.simps filter_append)
qed

theorem create_then_delete_sale_restores_witness:
  "partners (demo_sold Some) 1 = Some 1000 \<and>
   (case delete_daily_sale (Some 1) (demo_sold Some) 10 of
      Inl e \<Rightarrow> False
    | Inr d2 \<Rightarrow> partners d2 1 = Some 0 \<and> daily_sales d2 = [])"
proof -
  have h: "insert_daily_sale (Some 1) (init_db [1, 2, 3]) demo_sale = Inr (demo_sold Some)"
    by (simp add: demo_defs)
  from create_then_delete_sale_restores [OF h] demo_sold_balances [of Some] show ?thesis
    by (auto simp: demo_sale_def init_db_def split: sum.splits)
qed

text \<open>
  C10. An update of a sale that keeps \<^verbatim>\<open>partner_id\<close> and \<^verbatim>\<open>total_amount\<close> (and
  changes, say, the online/cash split, the date or the notes) leaves every partner's
  balance unchanged, whether the statement succeeds or raises, whoever sends it.
\<close>

theorem sale_update_same_partner_total_keeps_balances:
  assumes "find_sale sid (daily_sales d) = Some old"
    and "partner_id (f old) = partner_id old"
    and "total_amount (f old) = total_amount old"
  shows "partners (exec_op d (UpdateSale c sid f)) = partners d"
  using assms
  by (simp add: exec_op_def update_daily_sale_def Let_def split: option.splits)

theorem sale_update_same_partner_total_keeps_balances_witness:
  "map_option online_amount
     (find_sale 10 (daily_sales (exec_op (demo_sold Some) (UpdateSale (Some 1) 10 resplit))))
     = Some 400 \<and>
   partners (exec_op (demo_sold Some) (UpdateSale (Some 1) 10 resplit))
     = partners (demo_sold Some)"
proof -
  have h1: "find_sale 10 (daily_sales (demo_sold Some)) = Some demo_sale"
    by (simp add: demo_defs)
  have h2: "partner_id (resplit demo_sale) = partner_id demo_sale"
    by (simp add: resplit_def)
  have h3: "total_amount (resplit demo_sale) = total_amount demo_sale"
    by (simp add: resplit_def)
  have r: "map_option online_amount
     (find_sale 10 (daily_sales (exec_op (demo_sold Some) (UpdateSale (Some 1) 10 resplit))))
     = Some 400"
    by (simp add: demo_defs)
  from sale_update_same_partner_total_keeps_balances [where f = resplit and c = "Some 1",
      OF h1 h2 h3] r
  show ?thesis by simp
qed






section \<open>Approval metadata of stored rows\<close>

lemma checks_valid:
  "transaction_checks ps r = None \<Longrightarrow> valid_approval_status r"
  "personal_checks ps r = None \<Longrightarrow> valid_approval_status r"
  by (auto simp: transaction_checks_def personal_checks_def split: if_splits)

lemma set_replace_transaction:
  "set (replace_transaction tid new rows) \<subseteq> insert new (set rows)"
  by (auto simp: replace_transaction_def)

lemma set_remove_transaction:
  "set (remove_transaction tid rows) \<subseteq> set rows"
  by (auto simp: remove_transaction_def)

lemma apply_op_rows_valid:
  assumes "apply_op d x = Inr d'" and "rows_valid d"
  shows "rows_valid d'"
proof (cases x)
  case (InsertSale c r)
  with assms show ?thesis
    by (auto simp: rows_valid_def insert_daily_sale_def split: if_splits)
next
  case (UpdateSale c sid f)
  with assms show ?thesis
    by (auto simp: rows_valid_def update_daily_sale_def Let_def split: option.splits if_splits)
next
  case (DeleteSale c sid)
  with assms show ?thesis
    by (auto simp: rows_valid_def delete_daily_sale_def split: option.splits)
next
  case (InsertBusiness c r)
  with assms show ?thesis
    by (auto simp: rows_valid_def insert_partner_transaction_def
        split: option.splits if_splits dest: checks_valid)
next
  case (UpdateBusiness c now tid f)
  with assms show ?thesis
    using set_replace_transaction
    by (fastforce simp: rows_valid_def update_partner_transaction_def Let_def
        split: option.splits dest: checks_valid)
next
  case (DeleteBusiness c tid)
  with assms show ?thesis
    using set_remove_transaction
    by (fastforce simp: rows_valid_def delete_partner_transaction_def split: option.splits)
next
  case (InsertPersonal r)
  with assms show ?thesis
    by (auto simp: rows_valid_def insert_personal_transaction_def
        split: option.splits if_splits dest: checks_valid)
next
  case (UpdatePersonal now tid f)
  with assms show ?thesis
    using set_replace_transaction
    by (fastforce simp: rows_valid_def update_personal_transaction_def Let_def
        split: option.splits dest: checks_valid)
next
  case (DeletePersonal tid)
  with assms show ?thesis
    using set_remove_transaction
    by (fastforce simp: rows_valid_def delete_personal_transaction_def split: option.splits)
qed

lemma exec_op_rows_valid: "rows_valid d \<Longrightarrow> rows_valid (exec_op d x)"
  by (auto simp: exec_op_def split: sum.splits dest: apply_op_rows_valid)

lemma exec_ops_rows_valid: "rows_valid d \<Longrightarrow> rows_valid (exec_ops d xs)"
  by (induction xs arbitrary: d) (simp_all add: exec_op_rows_valid)

lemma init_rows_valid: "rows_valid (init_db ids)"
  by (simp add: rows_valid_def init_db_def)

lemma reachable_rows_valid:
  "r \<in> set (partner_transactions (exec_ops (init_db ids) xs))
         \<union> set (personal_transactions (exec_ops (init_db ids) xs)) \<Longrightarrow>
   valid_approval_status r"
  using exec_ops_rows_valid [OF init_rows_valid, of ids xs]
  by (auto simp: rows_valid_def)

lemma valid_approval_status_cases:
  "valid_approval_status r \<Longrightarrow>
     (status r = Pending \<longrightarrow> approved_by r = None \<and> approved_at r = None) \<and>
     (status r = Approved \<longrightarrow> approved_by r \<noteq> None \<and> approved_at r \<noteq> None) \<and>
     (status r = Rejected \<longrightarrow> approved_by r \<noteq> None)"
  by (auto simp: valid_approval_status_def)

lemma business_reset_clears:
  assumes "find_transaction tid (partner_transactions d) = Some old"
    and "update_partner_transaction c now d tid f = Inr d'"
    and "status (f old) = Pending"
  shows "\<exists>new. find_transaction tid (partner_transactions d') = Some new \<and>
           status new = Pending \<and> approved_by new = None \<and> approved_at new = None \<and>
           rejection_reason new = None"
proof -
  let ?new = "new_row now old f"
  from assms have "partner_transactions d' = replace_transaction tid ?new (partner_transactions d)"
    by (auto simp: update_partner_transaction_def Let_def split: option.splits)
  with assms have "find_transaction tid (partner_transactions d') = Some ?new"
    by (simp add: find_replace_transaction new_row_fields find_transaction_id)
  moreover from assms have "status ?new = Pending" by (simp add: new_row_fields)
  ultimately show ?thesis
    using new_row_pending by blast
qed

lemma personal_reset_clears:
  assumes "find_transaction tid (personal_transactions d) = Some old"
    and "update_personal_transaction now d tid f = Inr d'"
    and "status (f old) = Pending"
  shows "\<exists>new. find_transaction tid (personal_transactions d') = Some new \<and>
           status new = Pending \<and> approved_by new = None \<and> approved_at new = None \<and>
           rejection_reason new = None"
proof -
  let ?new = "new_row now old f"
  from assms have "personal_transactions d' = replace_transaction tid ?new (personal_transactions d)"
    by (auto simp: update_personal_transaction_def Let_def split: option.splits)
  with assms have "find_transaction tid (personal_transactions d') = Some ?new"
    by (simp add: find_replace_transaction new_row_fields find_transaction_id)
  moreover from assms have "status ?new = Pending" by (simp add: new_row_fields)
  ultimately show ?thesis
    using new_row_pending by blast
qed

text \<open>
  C7. After every history of statements from the initial state, every row of the two
  transaction tables satisfies: Pending implies \<^verbatim>\<open>approved_by\<close> and \<^verbatim>\<open>approved_at\<close>
  are NULL; Approved implies both are set; Rejected implies \<^verbatim>\<open>approved_by\<close> is set.
  And every update that writes status Pending stores the row with \<^verbatim>\<open>approved_by\<close>,
  \<^verbatim>\<open>approved_at\<close> and \<^verbatim>\<open>rejection_reason\<close> cleared.
\<close>

theorem status_metadata_invariant:
  "(\<forall>r \<in> set (partner_transactions (exec_ops (init_db ids) xs))
         \<union> set (personal_transactions (exec_ops (init_db ids) xs)).
      (status r = Pending \<longrightarrow> approved_by r = None \<and> approved_at r = None) \<and>
      (status r = Approved \<longrightarrow> approved_by r \<noteq> None \<and> approved_at r \<noteq> None) \<and>
      (status r = Rejected \<longrightarrow> approved_by r \<noteq> None)) \<and>
   (\<forall>d old d'. find_transaction tid (partner_transactions d) = Some old \<and>
        update_partner_transaction c now d tid f = Inr d' \<and> status (f old) = Pending \<longrightarrow>
        (\<exists>new. find_transaction tid (partner_transactions d') = Some new \<and>
           status new = Pending \<and> approved_by new = None \<and> approved_at new = None \<and>
           rejection_reason new = None)) \<and>
   (\<forall>d old d'. find_transaction tid (personal_transactions d) = Some old \<and>
        update_personal_transaction now d tid f = Inr d' \<and> status (f old) = Pending \<longrightarrow>
        (\<exists>new. find_transaction tid (personal_transactions d') = Some new \<and>
           status new = Pending \<and> approved_by new = None \<and> approved_at new = None \<and>
           rejection_reason new = None))"
proof (intro conjI)
  show "\<forall>r \<in> set (partner_transactions (exec_ops (init_db ids) xs))
         \<union> set (personal_transactions (exec_ops (init_db ids) xs)).
      (status r = Pending \<longrightarrow> approved_by r = None \<and> approved_at r = None) \<and>
      (status r = Approved \<longrightarrow> approved_by r \<noteq> None \<and> approved_at r \<noteq> None) \<and>
      (status r = Rejected \<longrightarrow> approved_by r \<noteq> None)"
    using reachable_rows_valid valid_approval_status_cases by blast
  show "\<forall>d old d'. find_transaction tid (partner_transactions d) = Some old \<and>
        update_partner_transaction c now d tid f = Inr d' \<and> status (f old) = Pending \<longrightarrow>
        (\<exists>new. find_transaction tid (partner_transactions d') = Some new \<and>
           status new = Pending \<and> approved_by new = None \<and> approved_at new = None \<and>
           rejection_reason new = None)"
    using business_reset_clears by blast
  show "\<forall>d old d'. find_transaction tid (personal_transactions d) = Some old \<and>
        update_personal_transaction now d tid f = Inr d' \<and> status (f old) = Pending \<longrightarrow>
        (\<exists>new. find_transaction tid (personal_transactions d') = Some new \<and>
           status new = Pending \<and> approved_by new = None \<and> approved_at new = None \<and>
           rejection_reason new = None)"
    using personal_reset_clears by blast
qed

theorem status_metadata_invariant_witness:
  "find_transaction 20 (partner_transactions (demo_approved Some)) =
     Some (demo_pending\<lparr>status := Approved, approved_by := Some 2, approved_at := Some 7\<rparr>) \<and>
   approved_by (demo_pending\<lparr>status := Approved, approved_by := Some 2, approved_at := Some 7\<rparr>)
     \<noteq> None \<and>
   find_transaction 20 (partner_transactions (exec_op (demo_approved Some) (UpdateBusiness (Some 1) 8 20 reopen)))
     = Some demo_pending"
proof -
  let ?old = "demo_pending\<lparr>status := Approved, approved_by := Some 2, approved_at := Some 7\<rparr>"
  let ?xs = "[InsertSale (Some 1) demo_sale, InsertBusiness (Some 1) demo_pending,
              UpdateBusiness (Some 2) 7 20 (business_updateData Approve 2 7 None)]"
  have run: "exec_ops (init_db [1, 2, 3]) ?xs = demo_approved Some"
    by (simp add: demo_approved_def demo_requested_def demo_sold_def)
  have mem: "?old \<in> set (partner_transactions (demo_approved Some))"
    by (simp add: demo_defs)
  have st: "status ?old = Approved" by simp
  note inv = status_metadata_invariant [where ids = "[1, 2, 3]" and xs = ?xs and tid = 20
      and now = 8 and f = reopen, unfolded run]
  from inv mem st have one: "approved_by ?old \<noteq> None" by blast
  have u: "update_partner_transaction (Some 1) 8 (demo_approved Some) 20 reopen =
             Inr (exec_op (demo_approved Some) (UpdateBusiness (Some 1) 8 20 reopen))"
    by (simp add: demo_defs)
  have two: "find_transaction 20
      (partner_transactions (exec_op (demo_approved Some) (UpdateBusiness (Some 1) 8 20 reopen)))
     = Some demo_pending"
    by (simp add: demo_defs)
  from one two demo_approved_row [of Some] show ?thesis by blast
qed

end
